theory Spec2Isabelle
  imports Complex_Main "HOL-Library.Char_ord" "HOL-Library.List_Lexorder"
    "HOL-Library.Product_Lexorder" "HOL-Library.AList"
begin

section \<open>Dates, timestamps and their text forms\<close>

text \<open>
  The pipeline works on \<^verbatim>\<open>datetime.date\<close> and \<^verbatim>\<open>datetime.datetime\<close> values
  (naive, no time zone). A date is its three fields; Python orders dates and
  timestamps lexicographically on their fields, most significant first.
\<close>

record date =
  year :: nat
  month :: nat
  day :: nat

record datetime =
  dt_date :: date
  hour :: nat
  minute :: nat
  second :: nat
  microsecond :: nat

definition date_key :: "date \<Rightarrow> nat \<times> nat \<times> nat" where
  "date_key d = (year d, month d, day d)"

definition datetime_key :: "datetime \<Rightarrow> (nat \<times> nat \<times> nat) \<times> nat \<times> nat \<times> nat \<times> nat" where
  "datetime_key t = (date_key (dt_date t), hour t, minute t, second t, microsecond t)"

definition is_leap :: "nat \<Rightarrow> bool" where
  "is_leap y \<longleftrightarrow> y mod 4 = 0 \<and> (y mod 100 \<noteq> 0 \<or> y mod 400 = 0)"

definition days_in_month :: "nat \<Rightarrow> nat \<Rightarrow> nat" where
  "days_in_month y m =
     (if m = 2 then (if is_leap y then 29 else 28)
      else if m = 4 \<or> m = 6 \<or> m = 9 \<or> m = 11 then 30 else 31)"

text \<open>The values the \<^verbatim>\<open>datetime\<close> constructors accept (MINYEAR = 1, MAXYEAR = 9999).\<close>

definition valid_date :: "date \<Rightarrow> bool" where
  "valid_date d \<longleftrightarrow>
     1 \<le> year d \<and> year d \<le> 9999 \<and> 1 \<le> month d \<and> month d \<le> 12 \<and>
     1 \<le> day d \<and> day d \<le> days_in_month (year d) (month d)"

definition valid_datetime :: "datetime \<Rightarrow> bool" where
  "valid_datetime t \<longleftrightarrow>
     valid_date (dt_date t) \<and> hour t < 24 \<and> minute t < 60 \<and> second t < 60 \<and>
     microsecond t < 1000000"

text \<open>\<^verbatim>\<open>datetime.combine(date, datetime.min.time())\<close>: midnight of the date.\<close>

definition midnight :: "date \<Rightarrow> datetime" where
  "midnight d = \<lparr>dt_date = d, hour = 0, minute = 0, second = 0, microsecond = 0\<rparr>"

text \<open>\<^verbatim>\<open>datetime.combine(date, datetime.min.time().replace(hour=12))\<close>: local noon.\<close>

definition noon :: "date \<Rightarrow> datetime" where
  "noon d = \<lparr>dt_date = d, hour = 12, minute = 0, second = 0, microsecond = 0\<rparr>"

text \<open>
  \<^verbatim>\<open>base_date + timedelta(days=10)\<close>. Calendar arithmetic one day at a time; a
  result after 9999-12-31 is Python's OverflowError, here \<open>None\<close>.
\<close>

definition next_day :: "date \<Rightarrow> date" where
  "next_day d =
     (if day d < days_in_month (year d) (month d) then d\<lparr>day := day d + 1\<rparr>
      else if month d < 12 then d\<lparr>month := month d + 1, day := 1\<rparr>
      else \<lparr>year = year d + 1, month = 1, day = 1\<rparr>)"

fun add_days :: "nat \<Rightarrow> date \<Rightarrow> date option" where
  "add_days 0 d = Some d"
| "add_days (Suc n) d =
     (let d' = next_day d in if year d' > 9999 then None else add_days n d')"

definition plus_days :: "datetime \<Rightarrow> nat \<Rightarrow> datetime option" where
  "plus_days t n = map_option (\<lambda>d. t\<lparr>dt_date := d\<rparr>) (add_days n (dt_date t))"

subsection \<open>Decimal text\<close>

definition digit_char :: "nat \<Rightarrow> char" where
  "digit_char n = char_of (48 + n)"

function digits :: "nat \<Rightarrow> string" where
  "digits n = (if n < 10 then [digit_char n] else digits (n div 10) @ [digit_char (n mod 10)])"
  by pat_completeness auto
termination
  by (relation "measure id") auto

declare digits.simps [simp del]

text \<open>\<^verbatim>\<open>str.zfill\<close> on a digit string: pad with zeros on the left up to the width.\<close>

definition zfill :: "nat \<Rightarrow> string \<Rightarrow> string" where
  "zfill w s = replicate (w - length s) (CHR ''0'') @ s"

subsection \<open>String operations\<close>

text \<open>
  \<^verbatim>\<open>s.replace(old, new)\<close>: every occurrence of \<open>old\<close>, found from the left without
  overlap, becomes \<open>new\<close>; an empty \<open>old\<close> matches before every character and at
  the end.
\<close>

function str_replace :: "string \<Rightarrow> string \<Rightarrow> string \<Rightarrow> string" where
  "str_replace old new s =
     (if old = [] then new @ concat (map (\<lambda>c. c # new) s)
      else if s = [] then []
      else if take (length old) s = old then new @ str_replace old new (drop (length old) s)
      else hd s # str_replace old new (tl s))"
  by pat_completeness auto
termination
  by (relation "measure (\<lambda>(old, new, s). length s)") auto

declare str_replace.simps [simp del]

definition startswith :: "string \<Rightarrow> string \<Rightarrow> bool" where
  "startswith s p \<longleftrightarrow> take (length p) s = p"

subsection \<open>Number and time formats\<close>

text \<open>
  The format spec \<^verbatim>\<open>06d\<close> of an f-string: sign-aware zero padding to a minimum
  width of six characters, the sign counted in the width.
\<close>

definition format_06d :: "int \<Rightarrow> string" where
  "format_06d i =
     (if i < 0 then CHR ''-'' # zfill 5 (digits (nat (- i))) else zfill 6 (digits (nat i)))"

text \<open>
  \<^verbatim>\<open>strftime\<close> directives. \<^verbatim>\<open>%Y\<close> is the year with century as a decimal number,
  four digits as Python documents it; \<^verbatim>\<open>%y\<close> is the year without century;
  \<^verbatim>\<open>%m %d %H %M %S\<close> are two digits.
\<close>

definition strftime_Ymd_HMS :: "datetime \<Rightarrow> string" where
  \<comment> \<open>\<^verbatim>\<open>"%Y%m%d%H%M%S"\<close>\<close>
  "strftime_Ymd_HMS t =
     zfill 4 (digits (year (dt_date t))) @ zfill 2 (digits (month (dt_date t))) @
     zfill 2 (digits (day (dt_date t))) @ zfill 2 (digits (hour t)) @
     zfill 2 (digits (minute t)) @ zfill 2 (digits (second t))"

definition strftime_mdY_HMS :: "datetime \<Rightarrow> string" where
  \<comment> \<open>\<^verbatim>\<open>'%m/%d/%Y %H:%M:%S'\<close>\<close>
  "strftime_mdY_HMS t =
     zfill 2 (digits (month (dt_date t))) @ ''/'' @ zfill 2 (digits (day (dt_date t))) @ ''/'' @
     zfill 4 (digits (year (dt_date t))) @ '' '' @ zfill 2 (digits (hour t)) @ '':'' @
     zfill 2 (digits (minute t)) @ '':'' @ zfill 2 (digits (second t))"

definition strftime_mdy :: "date \<Rightarrow> string" where
  \<comment> \<open>\<^verbatim>\<open>'%m%d%y'\<close>\<close>
  "strftime_mdy d =
     zfill 2 (digits (month d)) @ zfill 2 (digits (day d)) @ zfill 2 (digits (year d mod 100))"

subsection \<open>Reading a timestamp back\<close>

definition is_digit :: "char \<Rightarrow> bool" where
  "is_digit c \<longleftrightarrow> 48 \<le> (of_char c :: nat) \<and> (of_char c :: nat) \<le> 57"

definition str_to_nat :: "string \<Rightarrow> nat" where
  "str_to_nat s = foldl (\<lambda>a c. 10 * a + ((of_char c :: nat) - 48)) 0 s"

definition is_space :: "char \<Rightarrow> bool" where
  "is_space c \<longleftrightarrow> (of_char c :: nat) = 32 \<or> (9 \<le> (of_char c :: nat) \<and> (of_char c :: nat) \<le> 13)"

text \<open>
  A numeric field of \<^verbatim>\<open>strptime\<close>: between \<open>lo_w\<close> and \<open>hi_w\<close> decimal digits
  whose value lies in \<open>[lo, hi]\<close>, as the directive's regular expression asks.
\<close>

definition num_field :: "nat \<Rightarrow> nat \<Rightarrow> nat \<Rightarrow> nat \<Rightarrow> string \<Rightarrow> nat option" where
  "num_field lo_w hi_w lo hi f =
     (if lo_w \<le> length f \<and> length f \<le> hi_w \<and> list_all is_digit f \<and>
         lo \<le> str_to_nat f \<and> str_to_nat f \<le> hi
      then Some (str_to_nat f) else None)"

text \<open>\<^verbatim>\<open>%d\<close> also takes a space followed by one digit.\<close>

definition day_field :: "string \<Rightarrow> nat option" where
  "day_field f =
     (case f of
        [c, d] \<Rightarrow> if c = CHR '' '' then num_field 1 1 1 9 [d] else num_field 1 2 1 31 f
      | _ \<Rightarrow> num_field 1 2 1 31 f)"

definition split_char :: "char \<Rightarrow> string \<Rightarrow> (string \<times> string) option" where
  "split_char c s =
     (if c \<in> set s then Some (takeWhile (\<lambda>x. x \<noteq> c) s, tl (dropWhile (\<lambda>x. x \<noteq> c) s))
      else None)"

text \<open>
  \<^verbatim>\<open>datetime.strptime(text, '%m/%d/%Y %H:%M:%S')\<close>. The whole text has to match:
  month, day and the clock fields of one or two digits, a year of four, the
  separators of the format, its blank standing for any run of white space; then
  the \<^verbatim>\<open>datetime\<close> constructor checks the values. Anything else is ValueError.
  Characters are bytes, so only the ASCII digits count as digits.
\<close>

definition strptime_mdY_HMS :: "string \<Rightarrow> datetime option" where
  "strptime_mdY_HMS s =
     (case split_char (CHR ''/'') s of None \<Rightarrow> None | Some (fm, r1) \<Rightarrow>
      case split_char (CHR ''/'') r1 of None \<Rightarrow> None | Some (fd, r2) \<Rightarrow>
      let fy = take 4 r2; r3 = drop 4 r2; r4 = dropWhile is_space r3 in
      if r3 = [] \<or> \<not> is_space (hd r3) then None else
      case split_char (CHR '':'') r4 of None \<Rightarrow> None | Some (fH, r5) \<Rightarrow>
      case split_char (CHR '':'') r5 of None \<Rightarrow> None | Some (fM, fS) \<Rightarrow>
      case (num_field 1 2 1 12 fm, day_field fd, num_field 4 4 0 9999 fy,
            num_field 1 2 0 23 fH, num_field 1 2 0 59 fM, num_field 1 2 0 61 fS) of
        (Some m, Some d, Some y, Some H, Some M, Some S) \<Rightarrow>
          (let t = \<lparr>dt_date = \<lparr>year = y, month = m, day = d\<rparr>,
                    hour = H, minute = M, second = S, microsecond = 0\<rparr>
           in if valid_datetime t then Some t else None)
      | _ \<Rightarrow> None)"

section \<open>Messages and process state\<close>

text \<open>
  \<^verbatim>\<open>st.warning\<close> and \<^verbatim>\<open>st.error\<close> put a message on the page; a stage returns the
  messages it wrote, in order, next to its table.
\<close>

datatype py_error = KeyError | ValueError | OverflowError

text \<open>
  \<open>ErrorWith p e\<close> is the \<^verbatim>\<open>st.error\<close> of an exception handler: the prefix \<open>p\<close>
  followed by the text of the exception \<open>e\<close>.
\<close>

datatype msg = Warning string | Error string | ErrorWith string py_error

text \<open>One entry of \<^verbatim>\<open>st.session_state['stage3_matched_transactions']\<close>.\<close>

record match_record =
  mr_id :: string
  mr_bitwave_amount :: rat
  mr_stage2_amount :: rat
  mr_calculated_amount :: rat

text \<open>
  What the stages read and write besides their arguments: the two keys of
  \<^verbatim>\<open>st.session_state\<close> they use (\<open>None\<close>: the key is absent), the counter file
  \<^verbatim>\<open>data/id_counter.json\<close> (\<open>None\<close>: no file, or one that cannot be read), whether
  that file can be written, and the wall clock: \<open>wall_clock k\<close> is what the
  \<open>k\<close>-th call of \<^verbatim>\<open>datetime.now()\<close> returns.
\<close>

record world =
  id_counter :: "int option"
  stage3_matched_transactions :: "match_record list option"
  counter_file :: "int option"
  file_writable :: bool
  wall_clock :: "nat \<Rightarrow> datetime"
  clock_reads :: nat

section \<open>The id generator\<close>

definition load_counter :: "world \<Rightarrow> world" where
  "load_counter s =
     (case id_counter s of
        None \<Rightarrow> s\<lparr>id_counter := Some (case counter_file s of Some c \<Rightarrow> c | None \<Rightarrow> 1)\<rparr>
      | Some _ \<Rightarrow> s)"

text \<open>\<^verbatim>\<open>save_counter\<close>: a failed write is swallowed (\<^verbatim>\<open>except: pass\<close>).\<close>

definition save_counter :: "world \<Rightarrow> world" where
  "save_counter s = (if file_writable s then s\<lparr>counter_file := id_counter s\<rparr> else s)"

definition datetime_now :: "world \<Rightarrow> datetime \<times> world" where
  "datetime_now s = (wall_clock s (clock_reads s), s\<lparr>clock_reads := clock_reads s + 1\<rparr>)"

text \<open>
  \<^verbatim>\<open>get_next_id\<close> reads \<^verbatim>\<open>st.session_state['id_counter']\<close>, which raises KeyError
  when the key is absent.
\<close>

definition get_next_id :: "world \<Rightarrow> py_error + (string \<times> world)" where
  "get_next_id s =
     (case id_counter s of
        None \<Rightarrow> Inl KeyError
      | Some current_id \<Rightarrow>
          (let s1 = save_counter (s\<lparr>id_counter := Some (current_id + 1)\<rparr>);
               (timestamp, s2) = datetime_now s1;
               unique_id = ''VT'' @ strftime_Ymd_HMS timestamp @ format_06d current_id
           in Inr (unique_id, s2)))"

text \<open>\<^verbatim>\<open>get_id_generator()\<close> builds a generator; its constructor runs \<^verbatim>\<open>load_counter\<close>.\<close>

definition get_id_generator :: "world \<Rightarrow> world" where
  "get_id_generator s = load_counter s"

text \<open>\<^verbatim>\<open>get_multiple_ids(count)\<close> on a constructed generator.\<close>

fun get_multiple_ids_loop :: "nat \<Rightarrow> world \<Rightarrow> py_error + (string list \<times> world)" where
  "get_multiple_ids_loop 0 s = Inr ([], s)"
| "get_multiple_ids_loop (Suc n) s =
     (case get_next_id s of
        Inl e \<Rightarrow> Inl e
      | Inr (i, s') \<Rightarrow>
          (case get_multiple_ids_loop n s' of
             Inl e \<Rightarrow> Inl e
           | Inr (ids, s'') \<Rightarrow> Inr (i # ids, s'')))"

definition get_multiple_ids :: "nat \<Rightarrow> world \<Rightarrow> py_error + (string list \<times> world)" where
  "get_multiple_ids count s = get_multiple_ids_loop count (get_id_generator s)"

section \<open>Tables\<close>

text \<open>
  A \<^verbatim>\<open>DataFrame\<close> is the list of its rows, each row a record of the columns the
  stages read. Quantities are exact decimal numbers. \<^verbatim>\<open>End Time\<close> and \<^verbatim>\<open>dateTime\<close>
  are held as the timestamps \<^verbatim>\<open>pd.to_datetime\<close> makes of them. The \<^verbatim>\<open>Addresses\<close>
  cell of a wallet may be missing (\<open>None\<close>, pandas' NaN).
\<close>

record anchorage_row =
  End_Time :: datetime
  Type :: string
  Asset_Quantity_Before_Fee :: rat
  Value_USD :: rat
  Destination_Address :: string

record wallet =
  ID :: string
  Name :: string
  Addresses :: "string option"

record vesting_pair =
  Beneficiary_Wallet :: string
  Originating_Wallet :: string

record bitwave_row =
  bw_id :: string
  dateTime :: datetime
  walletId :: string
  bw_amount :: rat

text \<open>The grouped frame of Stage 1, with the \<^verbatim>\<open>Wallet Name\<close> column it is given.\<close>

record grouped_row =
  g_Date :: date
  g_Destination_Address :: string
  g_Asset_Quantity_Before_Fee :: rat
  g_Value_USD :: rat
  g_Wallet_Name :: string

record stage1_row =
  Date :: date
  Wallet_Name :: string
  s1_Asset_Quantity_Before_Fee :: rat
  s1_Value_USD :: rat

text \<open>
  A row of the Stage 2 and Stage 3 output. \<^verbatim>\<open>cost\<close> is a number in Stage 2 and
  the empty string in Stage 3 (\<open>None\<close>).
\<close>

record ledger_entry =
  le_id :: string
  remoteContactId :: string
  amount :: rat
  amountTicker :: string
  cost :: "rat option"
  costTicker :: string
  fee :: string
  feeTicker :: string
  time :: string
  blockchainId :: string
  memo :: string
  transactionType :: string
  accountId :: string
  contactId :: string
  categoryId :: string
  taxExempt :: string
  tradeId :: string
  description :: string
  fromAddress :: string
  toAddress :: string
  groupId :: string

record display_row =
  dr_Date :: date
  dr_Wallet_Name :: string
  dr_Amount :: rat

record suppression_entry =
  transactionID :: string
  action :: string

section \<open>Stage 1: vesting outflows\<close>

definition balance_adjustments :: "anchorage_row list \<Rightarrow> anchorage_row list" where
  "balance_adjustments anchorage_df = filter (\<lambda>r. Type r = ''Balance Adjustment'') anchorage_df"

definition group_key :: "anchorage_row \<Rightarrow> date \<times> string" where
  "group_key r = (dt_date (End_Time r), Destination_Address r)"

definition key_order :: "date \<times> string \<Rightarrow> (nat \<times> nat \<times> nat) \<times> string" where
  "key_order k = (date_key (fst k), snd k)"

text \<open>
  \<^verbatim>\<open>groupby(['Date', 'Destination Address']).agg('sum').reset_index()\<close>: one row
  for each key that occurs, the keys in ascending order, each with the sums over
  the rows of its group.
\<close>

definition groupby_sum :: "anchorage_row list \<Rightarrow> grouped_row list" where
  "groupby_sum rows =
     map (\<lambda>k. \<lparr>g_Date = fst k, g_Destination_Address = snd k,
               g_Asset_Quantity_Before_Fee =
                 sum_list (map Asset_Quantity_Before_Fee (filter (\<lambda>r. group_key r = k) rows)),
               g_Value_USD = sum_list (map Value_USD (filter (\<lambda>r. group_key r = k) rows)),
               g_Wallet_Name = snd k\<rparr>)
         (sort_key key_order (remdups (map group_key rows)))"

text \<open>
  \<^verbatim>\<open>dict(zip(keys, values))\<close>: a later pair with a key already present replaces
  its value and keeps the key's place; \<^verbatim>\<open>.items()\<close> lists the pairs in that order.
\<close>

definition py_dict :: "('k \<times> 'v) list \<Rightarrow> ('k \<times> 'v) list" where
  "py_dict kvs = foldl (\<lambda>d (k, v). AList.update k v d) [] kvs"

definition set_wallet_name :: "string \<Rightarrow> string \<Rightarrow> grouped_row list \<Rightarrow> grouped_row list" where
  \<comment> \<open>\<^verbatim>\<open>grouped.loc[grouped['Destination Address'] == addr, 'Wallet Name'] = name\<close>\<close>
  "set_wallet_name addr name grouped =
     map (\<lambda>g. if g_Destination_Address g = addr then g\<lparr>g_Wallet_Name := name\<rparr> else g) grouped"

definition replace_names :: "wallet list \<Rightarrow> grouped_row list \<Rightarrow> grouped_row list" where
  "replace_names wallets_df grouped =
     (if wallets_df \<noteq> [] then
        (let wallets_lookup = py_dict (zip (map Addresses wallets_df) (map Name wallets_df))
         in foldl (\<lambda>g (addr, name).
                     case addr of None \<Rightarrow> g | Some a \<Rightarrow> set_wallet_name a name g)
                  grouped wallets_lookup)
      else grouped)"

definition stage1_named :: "anchorage_row list \<Rightarrow> wallet list \<Rightarrow> grouped_row list" where
  "stage1_named anchorage_df wallets_df =
     replace_names wallets_df (groupby_sum (balance_adjustments anchorage_df))"

definition stage1_columns :: "grouped_row \<Rightarrow> stage1_row" where
  \<comment> \<open>\<^verbatim>\<open>grouped[['Date', 'Wallet Name', 'Asset Quantity (Before Fee)', 'Value (USD)']]\<close>\<close>
  "stage1_columns g =
     \<lparr>Date = g_Date g, Wallet_Name = g_Wallet_Name g,
      s1_Asset_Quantity_Before_Fee = g_Asset_Quantity_Before_Fee g,
      s1_Value_USD = g_Value_USD g\<rparr>"

definition stage1_order :: "stage1_row \<Rightarrow> (nat \<times> nat \<times> nat) \<times> string" where
  "stage1_order r = (date_key (Date r), Wallet_Name r)"

definition process_stage_1 :: "anchorage_row list \<Rightarrow> wallet list \<Rightarrow> stage1_row list \<times> msg list" where
  "process_stage_1 anchorage_df wallets_df =
     (if balance_adjustments anchorage_df = []
      then ([], [Warning ''No Balance Adjustment transactions found in the data.''])
      else (sort_key stage1_order (map stage1_columns (stage1_named anchorage_df wallets_df)), []))"

section \<open>Stage 2: vesting transfers\<close>

definition get_withdrawal_account_id :: "string \<Rightarrow> wallet list \<Rightarrow> string option \<times> msg list" where
  "get_withdrawal_account_id wallet_name wallets_df =
     (let search_name = (if startswith wallet_name ''Aptos ''
                         then str_replace ''Aptos '' '''' wallet_name else wallet_name);
          search_name = search_name @ '' vesting tokens'';
          match = filter (\<lambda>w. Name w = search_name) wallets_df
      in case match of
           [] \<Rightarrow> (None, [Error (wallet_name @ '' is missing a vesting tokens wallet'')])
         | w # _ \<Rightarrow> (Some (ID w), []))"

definition get_deposit_account_id ::
  "string \<Rightarrow> wallet list \<Rightarrow> vesting_pair list \<Rightarrow> string option \<times> msg list" where
  "get_deposit_account_id wallet_name wallets_df vesting_pairs_df =
     (case filter (\<lambda>p. Originating_Wallet p = wallet_name) vesting_pairs_df of
        [] \<Rightarrow> (None, [Error (''No Originating Wallet Match in the Vesting Wallet Pairs table for '' @
                           wallet_name)])
      | p # _ \<Rightarrow>
          (let beneficiary_wallet = Beneficiary_Wallet p
           in case filter (\<lambda>w. Name w = beneficiary_wallet) wallets_df of
                [] \<Rightarrow> (None, [Error (''No Beneficiary Wallet Match in the Wallets list for '' @
                                   beneficiary_wallet)])
              | w # _ \<Rightarrow> (Some (ID w), [])))"

definition withdrawal_row :: "string \<Rightarrow> rat \<Rightarrow> rat \<Rightarrow> string \<Rightarrow> string \<Rightarrow> date \<Rightarrow> ledger_entry" where
  "withdrawal_row withdrawal_id amt cst time_formatted withdrawal_account_id dt =
     \<lparr>le_id = withdrawal_id, remoteContactId = '''', amount = amt, amountTicker = ''APT'',
      cost = Some cst, costTicker = ''USD'', fee = '''', feeTicker = '''', time = time_formatted,
      blockchainId = withdrawal_account_id @ ''.vestingdistribute.'' @ strftime_mdy dt,
      memo = '''', transactionType = ''withdrawal'', accountId = withdrawal_account_id,
      contactId = '''', categoryId = '''', taxExempt = ''FALSE'', tradeId = '''',
      description = ''vesting distribution per Anchorage report'',
      fromAddress = '''', toAddress = '''', groupId = ''''\<rparr>"

definition deposit_row :: "string \<Rightarrow> rat \<Rightarrow> rat \<Rightarrow> string \<Rightarrow> string \<Rightarrow> date \<Rightarrow> ledger_entry" where
  "deposit_row deposit_id amt cst time_formatted deposit_account_id dt =
     \<lparr>le_id = deposit_id, remoteContactId = '''', amount = amt, amountTicker = ''APT'',
      cost = Some cst, costTicker = ''USD'', fee = '''', feeTicker = '''', time = time_formatted,
      blockchainId = deposit_account_id @ ''.vestingdistribute.'' @ strftime_mdy dt,
      memo = '''', transactionType = ''deposit'', accountId = deposit_account_id,
      contactId = '''', categoryId = '''', taxExempt = ''FALSE'', tradeId = '''',
      description = ''vesting distribution per Anchorage report'',
      fromAddress = '''', toAddress = '''', groupId = ''''\<rparr>"

text \<open>
  The body of Stage 2's loop for one row. It returns the rows it appends (or the
  exception that leaves the loop), the messages it writes and the new state.
  \<^verbatim>\<open>if account_id:\<close> holds for a string that is not empty, and not for \<^verbatim>\<open>None\<close>.
\<close>

definition stage2_row ::
  "wallet list \<Rightarrow> vesting_pair list \<Rightarrow> stage1_row \<Rightarrow> world \<Rightarrow>
   (py_error + ledger_entry list) \<times> msg list \<times> world" where
  "stage2_row wallets_df vesting_pairs_df row s =
     (let dt = Date row; wallet_name = Wallet_Name row;
          amt = s1_Asset_Quantity_Before_Fee row; cst = s1_Value_USD row;
          time_formatted = strftime_mdY_HMS (noon dt)
      in case get_next_id (get_id_generator s) of
           Inl e \<Rightarrow> (Inl e, [], get_id_generator s)
         | Inr (withdrawal_id, s1) \<Rightarrow>
       (case get_next_id (get_id_generator s1) of
           Inl e \<Rightarrow> (Inl e, [], get_id_generator s1)
         | Inr (deposit_id, s2) \<Rightarrow>
          (let (withdrawal_account_id, m1) = get_withdrawal_account_id wallet_name wallets_df;
               out1 = (case withdrawal_account_id of
                         None \<Rightarrow> []
                       | Some a \<Rightarrow> if a = [] then []
                                  else [withdrawal_row withdrawal_id amt cst time_formatted a dt]);
               (deposit_account_id, m2) =
                  get_deposit_account_id wallet_name wallets_df vesting_pairs_df;
               out2 = (case deposit_account_id of
                         None \<Rightarrow> []
                       | Some a \<Rightarrow> if a = [] then []
                                  else [deposit_row deposit_id amt cst time_formatted a dt])
           in (Inr (out1 @ out2), m1 @ m2, s2))))"

fun stage2_loop ::
  "wallet list \<Rightarrow> vesting_pair list \<Rightarrow> stage1_row list \<Rightarrow> world \<Rightarrow>
   (py_error + ledger_entry list) \<times> msg list \<times> world" where
  "stage2_loop wallets_df vesting_pairs_df [] s = (Inr [], [], s)"
| "stage2_loop wallets_df vesting_pairs_df (row # rows) s =
     (case stage2_row wallets_df vesting_pairs_df row s of
        (Inl e, m, s') \<Rightarrow> (Inl e, m, s')
      | (Inr out, m, s') \<Rightarrow>
          (case stage2_loop wallets_df vesting_pairs_df rows s' of
             (Inl e, m', s'') \<Rightarrow> (Inl e, m @ m', s'')
           | (Inr outs, m', s'') \<Rightarrow> (Inr (out @ outs), m @ m', s'')))"

definition process_stage_2 ::
  "stage1_row list \<Rightarrow> wallet list \<Rightarrow> vesting_pair list \<Rightarrow> world \<Rightarrow>
   ledger_entry list \<times> msg list \<times> world" where
  "process_stage_2 stage1_df wallets_df vesting_pairs_df s =
     (if stage1_df = []
      then ([], [Error ''No Stage 1 data available for Stage 2 processing''], s)
      else case stage2_loop wallets_df vesting_pairs_df stage1_df s of
             (Inl e, m, s') \<Rightarrow> ([], m @ [ErrorWith ''Error in Stage 2 processing: '' e], s')
           | (Inr output_rows, m, s') \<Rightarrow> (output_rows, m, s'))"

section \<open>Stage 3: staking rewards\<close>

text \<open>
  The loop of \<^verbatim>\<open>_get_stage2_deposit_amount\<close> over the deposits of the account: the
  first whose time, read back with \<^verbatim>\<open>strptime\<close>, falls on the date gives the
  amount; a time that cannot be read raises ValueError.
\<close>

fun find_deposit_on :: "date \<Rightarrow> ledger_entry list \<Rightarrow> py_error + rat option" where
  "find_deposit_on dt [] = Inr None"
| "find_deposit_on dt (deposit # deposits) =
     (case strptime_mdY_HMS (time deposit) of
        None \<Rightarrow> Inl ValueError
      | Some t \<Rightarrow> if dt_date t = dt then Inr (Some (amount deposit))
                  else find_deposit_on dt deposits)"

text \<open>
  A Stage 2 table without rows is \<^verbatim>\<open>pd.DataFrame([])\<close>, which has no columns:
  reading its \<^verbatim>\<open>transactionType\<close> column raises KeyError, caught like the
  ValueError of the loop.
\<close>

definition get_stage2_deposit_amount ::
  "ledger_entry list \<Rightarrow> string \<Rightarrow> date \<Rightarrow> rat option \<times> msg list" where
  "get_stage2_deposit_amount stage2_df account_id dt =
     (if stage2_df = [] then (None, [ErrorWith ''Error getting Stage 2 deposit amount: '' KeyError])
      else
       (let deposits = filter (\<lambda>e. transactionType e = ''deposit'' \<and> accountId e = account_id)
                              stage2_df
        in if deposits = [] then (None, [])
           else case find_deposit_on dt deposits of
                  Inl e \<Rightarrow> (None, [ErrorWith ''Error getting Stage 2 deposit amount: '' e])
                | Inr r \<Rightarrow> (r, [])))"

definition append_match :: "match_record \<Rightarrow> world \<Rightarrow> world" where
  "append_match m s =
     (let s1 = (case stage3_matched_transactions s of
                  None \<Rightarrow> s\<lparr>stage3_matched_transactions := Some []\<rparr>
                | Some _ \<Rightarrow> s)
      in s1\<lparr>stage3_matched_transactions :=
              map_option (\<lambda>l. l @ [m]) (stage3_matched_transactions s1)\<rparr>)"

definition calculate_bitwave_amount ::
  "bitwave_row list \<Rightarrow> string \<Rightarrow> date \<Rightarrow> rat \<Rightarrow> world \<Rightarrow> rat option \<times> msg list \<times> world" where
  "calculate_bitwave_amount bitwave_df account_id dt stage2_amount s =
     (let wallet_transactions = filter (\<lambda>t. walletId t = account_id) bitwave_df
      in if wallet_transactions = [] then (None, [], s)
         else
          (let base_date = midnight dt
           in case plus_days base_date 10 of
                None \<Rightarrow> (None, [ErrorWith ''Error calculating Bitwave amount: '' OverflowError], s)
              | Some end_date \<Rightarrow>
                 (let date_filtered =
                        filter (\<lambda>t. datetime_key (dateTime t) > datetime_key base_date \<and>
                                    datetime_key (dateTime t) \<le> datetime_key end_date)
                               wallet_transactions
                  in if date_filtered = [] then (None, [], s)
                     else
                      (let amount_filtered = filter (\<lambda>t. bw_amount t > stage2_amount) date_filtered
                       in case amount_filtered of
                            [] \<Rightarrow> (None, [], s)
                          | first # _ \<Rightarrow>
                             (let bitwave_amount = bw_amount first;
                                  calculated_amount = bitwave_amount - stage2_amount
                              in (Some calculated_amount, [],
                                  append_match \<lparr>mr_id = bw_id first,
                                                mr_bitwave_amount = bitwave_amount,
                                                mr_stage2_amount = stage2_amount,
                                                mr_calculated_amount = calculated_amount\<rparr> s))))))"

definition get_wallet_name_from_id :: "string \<Rightarrow> wallet list \<Rightarrow> string" where
  "get_wallet_name_from_id account_id wallets_df =
     (case filter (\<lambda>w. ID w = account_id) wallets_df of
        w # _ \<Rightarrow> Name w
      | [] \<Rightarrow> ''Unknown Wallet ('' @ account_id @ '')'')"

definition reward_row :: "string \<Rightarrow> rat \<Rightarrow> string \<Rightarrow> string \<Rightarrow> date \<Rightarrow> ledger_entry" where
  "reward_row unique_id calculated_amount time_formatted account_id dt =
     \<lparr>le_id = unique_id, remoteContactId = '''', amount = calculated_amount, amountTicker = ''APT'',
      cost = None, costTicker = '''', fee = '''', feeTicker = '''', time = time_formatted,
      blockchainId = account_id @ ''.vestingstakingrewards.'' @ strftime_mdy dt,
      memo = '''', transactionType = ''deposit'', accountId = account_id,
      contactId = ''nFc4OUI5w6wSa6zFKQVj.526'', categoryId = ''nFc4OUI5w6wSa6zFKQVj.265'',
      taxExempt = ''FALSE'', tradeId = '''',
      description = ''staking reward from vesting distribution per Anchorage report'',
      fromAddress = '''', toAddress = '''', groupId = ''''\<rparr>"

text \<open>
  The body of Stage 3's loop for one row: the output row and the display row it
  appends, if any (each \<^verbatim>\<open>continue\<close> is a \<open>None\<close>), or the exception that leaves
  the loop; the messages; the new state.
\<close>

definition stage3_row ::
  "ledger_entry list \<Rightarrow> bitwave_row list \<Rightarrow> wallet list \<Rightarrow> vesting_pair list \<Rightarrow>
   stage1_row \<Rightarrow> world \<Rightarrow> (py_error + (ledger_entry \<times> display_row) option) \<times> msg list \<times> world" where
  "stage3_row stage2_df bitwave_df wallets_df vesting_pairs_df row s =
     (let dt = Date row; wallet_name = Wallet_Name row;
          (account_id_opt, m1) = get_deposit_account_id wallet_name wallets_df vesting_pairs_df
      in case account_id_opt of
           None \<Rightarrow> (Inr None, m1, s)
         | Some account_id \<Rightarrow>
            if account_id = [] then (Inr None, m1, s)
            else
             (let (stage2_deposit_amount, m2) = get_stage2_deposit_amount stage2_df account_id dt
              in case stage2_deposit_amount of
                   None \<Rightarrow> (Inr None, m1 @ m2, s)
                 | Some stage2_amount \<Rightarrow>
                    (let (calculated, m3, s1) =
                           calculate_bitwave_amount bitwave_df account_id dt stage2_amount s
                     in case calculated of
                          None \<Rightarrow> (Inr None, m1 @ m2 @ m3, s1)
                        | Some calculated_amount \<Rightarrow>
                           if calculated_amount \<le> 0 then (Inr None, m1 @ m2 @ m3, s1)
                           else
                            (let time_formatted = strftime_mdY_HMS (noon dt)
                             in case get_next_id (get_id_generator s1) of
                                  Inl e \<Rightarrow> (Inl e, m1 @ m2 @ m3, get_id_generator s1)
                                | Inr (unique_id, s2) \<Rightarrow>
                                   (Inr (Some
                                      (reward_row unique_id calculated_amount time_formatted
                                         account_id dt,
                                       \<lparr>dr_Date = dt,
                                        dr_Wallet_Name =
                                          get_wallet_name_from_id account_id wallets_df,
                                        dr_Amount = calculated_amount\<rparr>)),
                                    m1 @ m2 @ m3, s2)))))"

fun stage3_loop ::
  "ledger_entry list \<Rightarrow> bitwave_row list \<Rightarrow> wallet list \<Rightarrow> vesting_pair list \<Rightarrow>
   stage1_row list \<Rightarrow> world \<Rightarrow>
   (py_error + (ledger_entry \<times> display_row) list) \<times> msg list \<times> world" where
  "stage3_loop stage2_df bitwave_df wallets_df vesting_pairs_df [] s = (Inr [], [], s)"
| "stage3_loop stage2_df bitwave_df wallets_df vesting_pairs_df (row # rows) s =
     (case stage3_row stage2_df bitwave_df wallets_df vesting_pairs_df row s of
        (Inl e, m, s') \<Rightarrow> (Inl e, m, s')
      | (Inr out, m, s') \<Rightarrow>
          (case stage3_loop stage2_df bitwave_df wallets_df vesting_pairs_df rows s' of
             (Inl e, m', s'') \<Rightarrow> (Inl e, m @ m', s'')
           | (Inr outs, m', s'') \<Rightarrow>
               (Inr ((case out of None \<Rightarrow> [] | Some r \<Rightarrow> [r]) @ outs), m @ m', s'')))"

definition process_stage_3 ::
  "stage1_row list \<Rightarrow> ledger_entry list \<Rightarrow> bitwave_row list \<Rightarrow> wallet list \<Rightarrow>
   vesting_pair list \<Rightarrow> world \<Rightarrow> (ledger_entry list \<times> display_row list) \<times> msg list \<times> world" where
  "process_stage_3 stage1_df stage2_df bitwave_df wallets_df vesting_pairs_df s =
     (if stage1_df = []
      then (([], []), [Error ''No Stage 1 data available for Stage 3 processing''], s)
      else case stage3_loop stage2_df bitwave_df wallets_df vesting_pairs_df stage1_df s of
             (Inl e, m, s') \<Rightarrow> (([], []), m @ [ErrorWith ''Error in Stage 3 processing: '' e], s')
           | (Inr rows, m, s') \<Rightarrow> ((map fst rows, map snd rows), m, s'))"

section \<open>Stage 4: the ignore list\<close>

definition process_stage_4 :: "world \<Rightarrow> suppression_entry list \<times> msg list" where
  "process_stage_4 s =
     (case stage3_matched_transactions s of
        None \<Rightarrow> ([], [Warning ''No Stage 3 transactions found. Please run Stage 3 first.''])
      | Some matched \<Rightarrow>
          (map (\<lambda>transaction. \<lparr>transactionID = mr_id transaction, action = ''ignore''\<rparr>) matched,
           []))"

section \<open>Notions used to state the properties\<close>


text \<open>The columns of the grouped frame that the renaming leaves alone.\<close>

definition core :: "grouped_row \<Rightarrow> date \<times> string \<times> rat \<times> rat" where
  "core g = (g_Date g, g_Destination_Address g, g_Asset_Quantity_Before_Fee g, g_Value_USD g)"

text \<open>What the renaming loop does to one row, given the lookup dictionary.\<close>

definition rename :: "(string option \<times> string) list \<Rightarrow> grouped_row \<Rightarrow> grouped_row" where
  "rename l g = (case map_of l (Some (g_Destination_Address g)) of
                   Some n \<Rightarrow> g\<lparr>g_Wallet_Name := n\<rparr> | None \<Rightarrow> g)"

text \<open>
  The \<open>k\<close>-th id a generator issues from the state \<open>s\<close> when its counter is \<open>c\<close>,
  and the state \<open>n\<close> issuances lead to.
\<close>

definition issued_id :: "world \<Rightarrow> int \<Rightarrow> nat \<Rightarrow> string" where
  "issued_id s c k =
     ''VT'' @ strftime_Ymd_HMS (wall_clock s (clock_reads s + k)) @ format_06d (c + int k)"

definition after_issuing :: "world \<Rightarrow> int \<Rightarrow> nat \<Rightarrow> world" where
  "after_issuing s c n =
     s\<lparr>id_counter := Some (c + int n),
       counter_file := (if file_writable s \<and> 0 < n then Some (c + int n) else counter_file s),
       clock_reads := clock_reads s + n\<rparr>"

text \<open>\<^verbatim>\<open>if account_id:\<close> as a predicate on the result of a lookup.\<close>

definition truthy :: "string option \<Rightarrow> bool" where
  "truthy a = (case a of None \<Rightarrow> False | Some i \<Rightarrow> i \<noteq> [])"

text \<open>
  The rows and the messages the body of Stage 2's loop produces for one row, as
  functions of the two ids drawn for it.
\<close>

definition stage2_entries ::
  "wallet list \<Rightarrow> vesting_pair list \<Rightarrow> stage1_row \<Rightarrow> string \<Rightarrow> string \<Rightarrow> ledger_entry list" where
  "stage2_entries wallets_df vesting_pairs_df row withdrawal_id deposit_id =
     (case fst (get_withdrawal_account_id (Wallet_Name row) wallets_df) of
        None \<Rightarrow> []
      | Some a \<Rightarrow> if a = [] then []
                 else [withdrawal_row withdrawal_id (s1_Asset_Quantity_Before_Fee row)
                         (s1_Value_USD row) (strftime_mdY_HMS (noon (Date row))) a (Date row)]) @
     (case fst (get_deposit_account_id (Wallet_Name row) wallets_df vesting_pairs_df) of
        None \<Rightarrow> []
      | Some a \<Rightarrow> if a = [] then []
                 else [deposit_row deposit_id (s1_Asset_Quantity_Before_Fee row)
                         (s1_Value_USD row) (strftime_mdY_HMS (noon (Date row))) a (Date row)])"

definition stage2_msgs :: "wallet list \<Rightarrow> vesting_pair list \<Rightarrow> stage1_row \<Rightarrow> msg list" where
  "stage2_msgs wallets_df vesting_pairs_df row =
     snd (get_withdrawal_account_id (Wallet_Name row) wallets_df) @
     snd (get_deposit_account_id (Wallet_Name row) wallets_df vesting_pairs_df)"

text \<open>The match records of the session: none when the key is absent.\<close>

definition matched :: "world \<Rightarrow> match_record list" where
  "matched s = (case stage3_matched_transactions s of None \<Rightarrow> [] | Some l \<Rightarrow> l)"

text \<open>
  A reward-source transaction that matches an account, a Stage-1 date with the
  day ten days after it, and an expected amount: it is of the account, its time
  is after midnight of the date and not after midnight ten days later, and its
  amount is above the expected one.
\<close>

definition reward_match :: "string \<Rightarrow> date \<Rightarrow> date \<Rightarrow> rat \<Rightarrow> bitwave_row \<Rightarrow> bool" where
  "reward_match account_id dt end_day expected t \<longleftrightarrow>
     walletId t = account_id \<and>
     datetime_key (midnight dt) < datetime_key (dateTime t) \<and>
     datetime_key (dateTime t) \<le> datetime_key (midnight end_day) \<and>
     expected < bw_amount t"

text \<open>The record Stage 3 keeps of a matched transaction.\<close>

definition match_of :: "bitwave_row \<Rightarrow> rat \<Rightarrow> match_record" where
  "match_of t expected =
     \<lparr>mr_id = bw_id t, mr_bitwave_amount = bw_amount t, mr_stage2_amount = expected,
      mr_calculated_amount = bw_amount t - expected\<rparr>"

text \<open>The row of the ignore list that Stage 4 writes for a match record.\<close>

definition suppress :: "match_record \<Rightarrow> suppression_entry" where
  "suppress m = \<lparr>transactionID = mr_id m, action = ''ignore''\<rparr>"

text \<open>
  A run of Stage 3 from \<open>s\<close> to \<open>s'\<close> with the output \<open>rows\<close> adds match records: the
  records of \<open>s'\<close> are those of \<open>s\<close> followed by one new record for each output row,
  in order, with the row's amount and the id of a reward-source transaction; and
  a list of records that is present stays non-empty.
\<close>

definition adds_matches ::
  "bitwave_row list \<Rightarrow> world \<Rightarrow> (ledger_entry \<times> display_row) list \<Rightarrow> world \<Rightarrow> bool" where
  "adds_matches bitwave_df s rows s' \<longleftrightarrow>
     (\<exists>new. matched s' = matched s @ new \<and>
        map mr_calculated_amount new = map (\<lambda>x. amount (fst x)) rows \<and>
        set (map mr_id new) \<subseteq> bw_id ` set bitwave_df) \<and>
     (stage3_matched_transactions s \<noteq> Some [] \<longrightarrow> stage3_matched_transactions s' \<noteq> Some [])"

section \<open>The scenario of the specification's examples\<close>

definition jan5 :: date where
  "jan5 = \<lparr>year = 2024, month = 1, day = 5\<rparr>"

definition clock0 :: "nat \<Rightarrow> datetime" where
  "clock0 k = \<lparr>dt_date = jan5, hour = 9, minute = 30, second = 0, microsecond = 0\<rparr>"

definition world0 :: world where
  "world0 = \<lparr>id_counter = None, stage3_matched_transactions = None, counter_file = Some 41,
             file_writable = True, wall_clock = clock0, clock_reads = 0\<rparr>"

text \<open>
  A custodian export with two Balance Adjustment rows for \<^verbatim>\<open>0xABC\<close> on one day, a
  row whose type differs in case only, and a row for an address no wallet has; a
  wallet directory in which two wallets list \<^verbatim>\<open>0xABC\<close>.
\<close>

definition anch :: "anchorage_row list" where
  "anch = [\<lparr>End_Time = midnight jan5, Type = ''Balance Adjustment'',
             Asset_Quantity_Before_Fee = 60, Value_USD = 300, Destination_Address = ''0xABC''\<rparr>,
           \<lparr>End_Time = noon jan5, Type = ''Balance Adjustment'',
             Asset_Quantity_Before_Fee = 40, Value_USD = 200, Destination_Address = ''0xABC''\<rparr>,
           \<lparr>End_Time = noon jan5, Type = ''balance adjustment'',
             Asset_Quantity_Before_Fee = 7, Value_USD = 7, Destination_Address = ''0xABC''\<rparr>,
           \<lparr>End_Time = noon jan5, Type = ''Balance Adjustment'',
             Asset_Quantity_Before_Fee = 1, Value_USD = 2, Destination_Address = ''0xAAA''\<rparr>]"

definition wl :: "wallet list" where
  "wl = [\<lparr>ID = ''W0'', Name = ''Old'', Addresses = Some ''0xABC''\<rparr>,
         \<lparr>ID = ''W1'', Name = ''TeamA vesting tokens'', Addresses = None\<rparr>,
         \<lparr>ID = ''W2'', Name = ''TeamA Beneficiary'', Addresses = None\<rparr>,
         \<lparr>ID = ''W3'', Name = ''Aptos TeamA'', Addresses = Some ''0xABC''\<rparr>]"

definition g_abc :: grouped_row where
  "g_abc = \<lparr>g_Date = jan5, g_Destination_Address = ''0xABC'', g_Asset_Quantity_Before_Fee = 100,
            g_Value_USD = 500, g_Wallet_Name = ''Aptos TeamA''\<rparr>"

definition g_aaa :: grouped_row where
  "g_aaa = \<lparr>g_Date = jan5, g_Destination_Address = ''0xAAA'', g_Asset_Quantity_Before_Fee = 1,
            g_Value_USD = 2, g_Wallet_Name = ''0xAAA''\<rparr>"

definition row_aaa :: stage1_row where
  "row_aaa = \<lparr>Date = jan5, Wallet_Name = ''0xAAA'', s1_Asset_Quantity_Before_Fee = 1,
              s1_Value_USD = 2\<rparr>"

definition row_abc :: stage1_row where
  "row_abc = \<lparr>Date = jan5, Wallet_Name = ''Aptos TeamA'', s1_Asset_Quantity_Before_Fee = 100,
              s1_Value_USD = 500\<rparr>"

definition vp :: "vesting_pair list" where
  "vp = [\<lparr>Beneficiary_Wallet = ''TeamA Beneficiary'', Originating_Wallet = ''Aptos TeamA''\<rparr>]"

text \<open>
  A wallet whose name contains \<^verbatim>\<open>Aptos \<close> a second time, after the prefix; the
  directory has its vesting-tokens wallet under the name without the prefix.
\<close>

definition row_fund :: stage1_row where
  "row_fund = \<lparr>Date = jan5, Wallet_Name = ''Aptos Team Aptos Fund'',
               s1_Asset_Quantity_Before_Fee = 10, s1_Value_USD = 50\<rparr>"

definition wl_fund :: "wallet list" where
  "wl_fund = [\<lparr>ID = ''W1'', Name = ''Team Aptos Fund vesting tokens'', Addresses = None\<rparr>,
              \<lparr>ID = ''W2'', Name = ''Fund Beneficiary'', Addresses = None\<rparr>]"

definition vp_fund :: "vesting_pair list" where
  "vp_fund = [\<lparr>Beneficiary_Wallet = ''Fund Beneficiary'',
               Originating_Wallet = ''Aptos Team Aptos Fund''\<rparr>]"

text \<open>
  The Stage 2 output for the row of \<^verbatim>\<open>Aptos TeamA\<close>, and a reward-source export
  for its beneficiary wallet \<^verbatim>\<open>W2\<close>: a transaction at midnight of the date, one
  three days later, one exactly ten days later and one after that.
\<close>

definition jan15 :: date where
  "jan15 = \<lparr>year = 2024, month = 1, day = 15\<rparr>"

definition stage2_ex :: "ledger_entry list" where
  "stage2_ex =
     [withdrawal_row ''VT20240105093000000041'' 100 500 ''01/05/2024 12:00:00'' ''W1'' jan5,
      deposit_row ''VT20240105093000000042'' 100 500 ''01/05/2024 12:00:00'' ''W2'' jan5]"

definition bw :: "bitwave_row list" where
  "bw = [\<lparr>bw_id = ''tx0'', dateTime = midnight jan5, walletId = ''W2'', bw_amount = 500\<rparr>,
         \<lparr>bw_id = ''tx1'', dateTime = noon \<lparr>year = 2024, month = 1, day = 8\<rparr>,
           walletId = ''W2'', bw_amount = 112\<rparr>,
         \<lparr>bw_id = ''tx2'', dateTime = midnight jan15, walletId = ''W2'', bw_amount = 130\<rparr>,
         \<lparr>bw_id = ''tx3'', dateTime = noon jan15, walletId = ''W2'', bw_amount = 900\<rparr>]"

text \<open>Two runs of Stage 3 on these inputs, one after the other, in a new session.\<close>

definition run1 :: "(ledger_entry list \<times> display_row list) \<times> msg list \<times> world" where
  "run1 = process_stage_3 [row_abc] stage2_ex bw wl vp world0"

definition run2 :: "(ledger_entry list \<times> display_row list) \<times> msg list \<times> world" where
  "run2 = process_stage_3 [row_abc] stage2_ex bw wl vp (snd (snd run1))"

section \<open>Facts about the text forms\<close>

lemma of_char_digit_char: "n < 10 \<Longrightarrow> (of_char (digit_char n) :: nat) = 48 + n"
  by (simp add: digit_char_def)

lemma is_digit_digit_char: "n < 10 \<Longrightarrow> is_digit (digit_char n)"
  by (simp add: is_digit_def of_char_digit_char)

lemma str_to_nat_snoc: "str_to_nat (s @ [c]) = 10 * str_to_nat s + ((of_char c :: nat) - 48)"
  by (simp add: str_to_nat_def)

lemma str_to_nat_digits: "str_to_nat (digits n) = n"
proof (induction n rule: digits.induct)
  case (1 n)
  show ?case
  proof (cases "n < 10")
    case True
    then show ?thesis
      by (subst digits.simps) (simp add: str_to_nat_def of_char_digit_char)
  next
    case False
    with 1 have "str_to_nat (digits (n div 10)) = n div 10" by simp
    with False show ?thesis
      by (subst digits.simps) (simp add: str_to_nat_snoc of_char_digit_char)
  qed
qed

lemma digits_all_digit: "list_all is_digit (digits n)"
proof (induction n rule: digits.induct)
  case (1 n)
  show ?case
  proof (cases "n < 10")
    case True
    then show ?thesis by (subst digits.simps) (simp add: is_digit_digit_char)
  next
    case False
    with 1 have "list_all is_digit (digits (n div 10))" by simp
    with False show ?thesis
      by (subst digits.simps) (simp add: is_digit_digit_char)
  qed
qed

lemma length_digits_pos: "0 < length (digits n)"
  by (subst digits.simps) simp

lemma length_digits_le: "n < 10 ^ k \<Longrightarrow> 0 < k \<Longrightarrow> length (digits n) \<le> k"
proof (induction n arbitrary: k rule: digits.induct)
  case (1 n)
  show ?case
  proof (cases "n < 10")
    case True
    with 1 show ?thesis by (subst digits.simps) simp
  next
    case False
    have k: "1 < k"
    proof (rule ccontr)
      assume "\<not> 1 < k"
      with "1.prems" have "k = 1" by simp
      with "1.prems" False show False by simp
    qed
    then obtain j where j: "k = Suc j" "0 < j" by (cases k) auto
    with "1.prems" have "n div 10 < 10 ^ j"
      by (simp add: less_mult_imp_div_less mult.commute)
    with 1(1)[OF False this j(2)] False j show ?thesis
      by (subst digits.simps) simp
  qed
qed

lemma str_to_nat_replicate0: "str_to_nat (replicate k (CHR ''0'') @ s) = str_to_nat s"
  by (induction k) (simp_all add: str_to_nat_def)

lemma str_to_nat_zfill_digits: "str_to_nat (zfill w (digits n)) = n"
  by (simp add: zfill_def str_to_nat_replicate0 str_to_nat_digits)

lemma length_zfill: "length (zfill w s) = max w (length s)"
  by (simp add: zfill_def)

lemma zfill_all_digit: "list_all is_digit s \<Longrightarrow> list_all is_digit (zfill w s)"
  by (auto simp: zfill_def is_digit_def list_all_iff)

lemma length_zfill_digits: "n < 10 ^ k \<Longrightarrow> 0 < k \<Longrightarrow> length (zfill k (digits n)) = k"
  using length_digits_le [of n k] by (simp add: length_zfill)

lemma hd_zfill_digit: "list_all is_digit s \<Longrightarrow> s \<noteq> [] \<Longrightarrow> is_digit (hd (zfill w s))"
  by (cases "w - length s") (auto simp: zfill_def is_digit_def list_all_iff hd_append)

text \<open>The counter can be read back from its \<^verbatim>\<open>06d\<close> form: two counters never share one.\<close>

lemma format_06d_inj: "format_06d a = format_06d b \<Longrightarrow> a = b"
proof -
  assume eq: "format_06d a = format_06d b"
  have nd: "\<not> is_digit (CHR ''-'')" by (simp add: is_digit_def)
  have hd_nonneg: "is_digit (hd (format_06d i))" if "0 \<le> i" for i
    using that hd_zfill_digit [OF digits_all_digit, of "nat i" 6] length_digits_pos [of "nat i"]
    by (auto simp: format_06d_def zfill_def)
  have hd_neg: "hd (format_06d i) = CHR ''-''" if "i < 0" for i
    using that by (simp add: format_06d_def)
  show "a = b"
  proof (cases "a < 0"; cases "b < 0")
    assume "a < 0" "b < 0"
    with eq have "str_to_nat (zfill 5 (digits (nat (- a)))) = str_to_nat (zfill 5 (digits (nat (- b))))"
      by (simp add: format_06d_def)
    then have "nat (- a) = nat (- b)" by (simp only: str_to_nat_zfill_digits)
    with \<open>a < 0\<close> \<open>b < 0\<close> show ?thesis by simp
  next
    assume "a < 0" "\<not> b < 0"
    with hd_neg [of a] hd_nonneg [of b] eq nd show ?thesis by simp
  next
    assume "\<not> a < 0" "b < 0"
    with hd_neg [of b] hd_nonneg [of a] eq nd show ?thesis by simp
  next
    assume "\<not> a < 0" "\<not> b < 0"
    with eq have "str_to_nat (zfill 6 (digits (nat a))) = str_to_nat (zfill 6 (digits (nat b)))"
      by (simp add: format_06d_def)
    then have "nat a = nat b" by (simp only: str_to_nat_zfill_digits)
    with \<open>\<not> a < 0\<close> \<open>\<not> b < 0\<close> show ?thesis by simp
  qed
qed

lemma format_06d_nonneg: "0 \<le> i \<Longrightarrow> format_06d i = zfill 6 (digits (nat i))"
  by (simp add: format_06d_def)

lemma days_in_month_le: "days_in_month y m \<le> 31"
  by (simp add: days_in_month_def)

lemma valid_date_fields:
  assumes "valid_date d"
  shows "year d < 10 ^ 4" "month d < 10 ^ 2" "day d < 10 ^ 2"
  using assms days_in_month_le [of "year d" "month d"] by (simp_all add: valid_date_def)

lemma length_strftime_Ymd_HMS: "valid_datetime t \<Longrightarrow> length (strftime_Ymd_HMS t) = 14"
proof -
  assume v: "valid_datetime t"
  then have d: "valid_date (dt_date t)" by (simp add: valid_datetime_def)
  have "length (zfill 4 (digits (year (dt_date t)))) = 4"
    using valid_date_fields(1) [OF d] by (rule length_zfill_digits) simp
  moreover have "length (zfill 2 (digits (month (dt_date t)))) = 2"
    using valid_date_fields(2) [OF d] by (rule length_zfill_digits) simp
  moreover have "length (zfill 2 (digits (day (dt_date t)))) = 2"
    using valid_date_fields(3) [OF d] by (rule length_zfill_digits) simp
  moreover have "length (zfill 2 (digits (hour t))) = 2"
    using v by (intro length_zfill_digits) (simp_all add: valid_datetime_def)
  moreover have "length (zfill 2 (digits (minute t))) = 2"
    using v by (intro length_zfill_digits) (simp_all add: valid_datetime_def)
  moreover have "length (zfill 2 (digits (second t))) = 2"
    using v by (intro length_zfill_digits) (simp_all add: valid_datetime_def)
  ultimately show ?thesis by (simp add: strftime_Ymd_HMS_def)
qed

lemma strftime_Ymd_HMS_all_digit: "list_all is_digit (strftime_Ymd_HMS t)"
  by (simp add: strftime_Ymd_HMS_def zfill_all_digit digits_all_digit)

subsection \<open>The time text of Stage 2 reads back as noon of the date\<close>

lemma split_char_append:
  assumes "c \<notin> set a"
  shows "split_char c (a @ c # r) = Some (a, r)"
proof -
  from assms have ne: "\<And>x. x \<in> set a \<Longrightarrow> x \<noteq> c" by auto
  have "takeWhile (\<lambda>x. x \<noteq> c) (a @ c # r) = a"
    using ne by (simp add: takeWhile_append2)
  moreover have "dropWhile (\<lambda>x. x \<noteq> c) (a @ c # r) = c # r"
    using ne by (simp add: dropWhile_append2)
  ultimately show ?thesis by (simp add: split_char_def)
qed

lemma not_digit_sep: "list_all is_digit f \<Longrightarrow> CHR ''/'' \<notin> set f"
  by (auto simp: list_all_iff is_digit_def)

lemma num_field_zfill:
  assumes "n < 10 ^ w" "0 < w" "lo_w \<le> w" "w \<le> hi_w" "lo \<le> n" "n \<le> hi"
  shows "num_field lo_w hi_w lo hi (zfill w (digits n)) = Some n"
  using assms
  by (simp add: num_field_def length_zfill_digits zfill_all_digit digits_all_digit
      str_to_nat_zfill_digits)

lemma day_field_zfill:
  assumes "1 \<le> n" "n \<le> 31"
  shows "day_field (zfill 2 (digits n)) = Some n"
proof -
  have len: "length (zfill 2 (digits n)) = 2"
    using assms by (intro length_zfill_digits) simp_all
  then obtain c d where cd: "zfill 2 (digits n) = [c, d]"
    by (auto simp: length_Suc_conv numeral_2_eq_2)
  have "list_all is_digit (zfill 2 (digits n))"
    by (simp add: zfill_all_digit digits_all_digit)
  with cd have "c \<noteq> CHR '' ''" by (auto simp: is_digit_def)
  moreover have "num_field 1 2 1 31 (zfill 2 (digits n)) = Some n"
    using assms by (intro num_field_zfill) simp_all
  ultimately show ?thesis by (simp add: day_field_def cd)
qed

lemma clock_text: "zfill 2 (digits 12) = ''12''" "zfill 2 (digits 0) = ''00''"
  by code_simp+

lemma noon_text:
  "strftime_mdY_HMS (noon d) =
     zfill 2 (digits (month d)) @ CHR ''/'' # zfill 2 (digits (day d)) @ CHR ''/'' #
     zfill 4 (digits (year d)) @ '' 12:00:00''"
  by (simp add: strftime_mdY_HMS_def noon_def clock_text)

lemma strptime_strftime_noon:
  assumes "valid_date d"
  shows "strptime_mdY_HMS (strftime_mdY_HMS (noon d)) = Some (noon d)"
proof -
  let ?M = "zfill 2 (digits (month d))" and ?D = "zfill 2 (digits (day d))"
  let ?Y = "zfill 4 (digits (year d))"
  have dg: "list_all is_digit ?M" "list_all is_digit ?D"
    by (simp_all add: zfill_all_digit digits_all_digit)
  have s1: "split_char (CHR ''/'') (?M @ CHR ''/'' # ?D @ CHR ''/'' # ?Y @ '' 12:00:00'') =
      Some (?M, ?D @ CHR ''/'' # ?Y @ '' 12:00:00'')"
    by (rule split_char_append) (rule not_digit_sep [OF dg(1)])
  have s2: "split_char (CHR ''/'') (?D @ CHR ''/'' # ?Y @ '' 12:00:00'') =
      Some (?D, ?Y @ '' 12:00:00'')"
    by (rule split_char_append) (rule not_digit_sep [OF dg(2)])
  have ly: "length ?Y = 4"
    using valid_date_fields(1) [OF assms] by (rule length_zfill_digits) simp
  have fm: "num_field 1 2 1 12 ?M = Some (month d)"
    using assms by (intro num_field_zfill) (simp_all add: valid_date_def)
  have fd: "day_field ?D = Some (day d)"
    using assms days_in_month_le [of "year d" "month d"]
    by (intro day_field_zfill) (simp_all add: valid_date_def)
  have fy: "num_field 4 4 0 9999 ?Y = Some (year d)"
    using assms by (intro num_field_zfill) (simp_all add: valid_date_def)
  have tm: "split_char (CHR '':'') ''12:00:00'' = Some (''12'', ''00:00'')"
    "split_char (CHR '':'') ''00:00'' = Some (''00'', ''00'')"
    "num_field 1 2 0 23 ''12'' = Some 12" "num_field 1 2 0 59 ''00'' = Some 0"
    "num_field 1 2 0 61 ''00'' = Some 0"
    "dropWhile is_space '' 12:00:00'' = ''12:00:00''" "is_space (CHR '' '')"
    by (simp_all add: split_char_def num_field_def is_digit_def str_to_nat_def is_space_def)
  have v: "valid_datetime \<lparr>dt_date = \<lparr>year = year d, month = month d, day = day d\<rparr>,
      hour = 12, minute = 0, second = 0, microsecond = 0\<rparr>"
    using assms by (simp add: valid_datetime_def valid_date_def)
  have y4: "take 4 (?Y @ '' 12:00:00'') = ?Y" "drop 4 (?Y @ '' 12:00:00'') = '' 12:00:00''"
    by (simp_all add: ly)
  have e: "\<lparr>year = year d, month = month d, day = day d\<rparr> = d" by simp
  show ?thesis
    unfolding noon_text strptime_mdY_HMS_def s1 s2 option.case prod.case Let_def y4
      tm(6) tm(1) tm(2) fm fd fy tm(3) tm(4) tm(5)
    using v tm(7) by (simp add: noon_def e)
qed

section \<open>The id generator: distinct ids, their form, the counter\<close>

lemma get_next_id_Some:
  "id_counter s = Some c \<Longrightarrow>
   get_next_id s = Inr (''VT'' @ strftime_Ymd_HMS (wall_clock s (clock_reads s)) @ format_06d c,
     s\<lparr>id_counter := Some (c + 1),
       counter_file := (if file_writable s then Some (c + 1) else counter_file s),
       clock_reads := clock_reads s + 1\<rparr>)"
  by (simp add: get_next_id_def save_counter_def datetime_now_def)

lemma get_id_generator_counter:
  "id_counter (get_id_generator s) =
     Some (case id_counter s of Some c \<Rightarrow> c
           | None \<Rightarrow> (case counter_file s of Some c \<Rightarrow> c | None \<Rightarrow> 1))"
  by (simp add: get_id_generator_def load_counter_def split: option.splits)

lemma get_id_generator_frame:
  "wall_clock (get_id_generator s) = wall_clock s"
  "clock_reads (get_id_generator s) = clock_reads s"
  "file_writable (get_id_generator s) = file_writable s"
  "counter_file (get_id_generator s) = counter_file s"
  "stage3_matched_transactions (get_id_generator s) = stage3_matched_transactions s"
  by (simp_all add: get_id_generator_def load_counter_def split: option.splits)

lemma get_multiple_ids_loop_closed:
  "id_counter s = Some c \<Longrightarrow>
   get_multiple_ids_loop n s =
     Inr (map (\<lambda>k. ''VT'' @ strftime_Ymd_HMS (wall_clock s (clock_reads s + k)) @
                    format_06d (c + int k)) [0..<n],
          s\<lparr>id_counter := Some (c + int n),
            counter_file := (if file_writable s \<and> 0 < n then Some (c + int n) else counter_file s),
            clock_reads := clock_reads s + n\<rparr>)"
proof (induction n arbitrary: s c)
  case 0
  then show ?case by simp
next
  case (Suc n)
  let ?s1 = "s\<lparr>id_counter := Some (c + 1),
       counter_file := (if file_writable s then Some (c + 1) else counter_file s),
       clock_reads := clock_reads s + 1\<rparr>"
  have c1: "id_counter ?s1 = Some (c + 1)" by simp
  have m: "map f [0..<Suc n] = f 0 # map (\<lambda>k. f (Suc k)) [0..<n]" for f :: "nat \<Rightarrow> string"
    by (simp add: upt_conv_Cons map_Suc_upt [symmetric] del: upt_Suc)
  show ?case
  proof (cases "file_writable s")
    case True
    with Suc.IH [OF c1] show ?thesis
      by (simp add: get_next_id_Some [OF Suc.prems] m add.assoc del: upt_Suc)
  next
    case False
    with Suc.IH [OF c1] show ?thesis
      by (simp add: get_next_id_Some [OF Suc.prems] m add.assoc del: upt_Suc)
  qed
qed

lemma issued_ids_distinct:
  assumes "\<And>k. valid_datetime (clock k)"
  shows "distinct (map (\<lambda>k. ''VT'' @ strftime_Ymd_HMS (clock (r + k)) @ format_06d (c + int k))
                       [0..<n])"
proof -
  let ?f = "\<lambda>k. ''VT'' @ strftime_Ymd_HMS (clock (r + k)) @ format_06d (c + int k)"
  have "inj ?f"
  proof (rule injI)
    fix i j assume "?f i = ?f j"
    then have "strftime_Ymd_HMS (clock (r + i)) @ format_06d (c + int i) =
               strftime_Ymd_HMS (clock (r + j)) @ format_06d (c + int j)" by simp
    moreover have "length (strftime_Ymd_HMS (clock (r + i))) =
                   length (strftime_Ymd_HMS (clock (r + j)))"
      by (simp add: length_strftime_Ymd_HMS assms)
    ultimately have "format_06d (c + int i) = format_06d (c + int j)" by simp
    then have "c + int i = c + int j" by (rule format_06d_inj)
    then show "i = j" by simp
  qed
  then have "inj_on ?f (set [0..<n])" by (rule inj_on_subset) simp
  then show ?thesis by (simp only: distinct_map distinct_upt simp_thms)
qed

lemma valid_clock0: "valid_datetime (clock0 k)"
  by (simp add: clock0_def jan5_def valid_datetime_def valid_date_def days_in_month_def)

lemma strftime_clock0: "strftime_Ymd_HMS (clock0 k) = ''20240105093000''"
  unfolding clock0_def jan5_def by code_simp

text \<open>
  Claim C5. A session issues \<open>n\<close> ids through the generator, its wall clock giving
  valid timestamps, and \<open>c\<close> is the counter the generator starts from (the
  session's, or else the file's, or else 1). Then the \<open>n\<close> ids are pairwise
  distinct; the \<open>j\<close>-th is \<^verbatim>\<open>VT\<close>, the 14 digits of the second-resolution time of
  its issue, and the counter value \<open>c + j\<close> in the form \<^verbatim>\<open>06d\<close> (zero-padded to
  six digits for a counter that is not negative); afterwards the session's
  counter is \<open>c + n\<close>, and so is the counter file when it can be written and an
  id was issued.
\<close>

theorem id_generator_distinct_format_counter:
  assumes clock: "\<forall>k. valid_datetime (wall_clock s k)"
    and start: "id_counter (get_id_generator s) = Some c"
  shows "\<exists>ids s'. get_multiple_ids n s = Inr (ids, s') \<and> length ids = n \<and> distinct ids \<and>
           (\<forall>j<n. \<exists>ts. ids ! j = ''VT'' @ ts @ format_06d (c + int j) \<and>
                   ts = strftime_Ymd_HMS (wall_clock s (clock_reads s + j)) \<and>
                   length ts = 14 \<and> list_all is_digit ts \<and>
                   (0 \<le> c \<longrightarrow> format_06d (c + int j) = zfill 6 (digits (nat (c + int j))))) \<and>
           id_counter s' = Some (c + int n) \<and>
           (file_writable s \<and> 0 < n \<longrightarrow> counter_file s' = Some (c + int n))"
proof -
  let ?g = "get_id_generator s"
  let ?f = "\<lambda>k. ''VT'' @ strftime_Ymd_HMS (wall_clock s (clock_reads s + k)) @
                 format_06d (c + int k)"
  let ?s' = "?g\<lparr>id_counter := Some (c + int n),
            counter_file := (if file_writable ?g \<and> 0 < n then Some (c + int n)
                             else counter_file ?g),
            clock_reads := clock_reads ?g + n\<rparr>"
  have run: "get_multiple_ids n s = Inr (map ?f [0..<n], ?s')"
    unfolding get_multiple_ids_def get_multiple_ids_loop_closed [OF start]
    by (simp add: get_id_generator_frame)
  have dist: "distinct (map ?f [0..<n])"
    using clock by (intro issued_ids_distinct) simp
  have form: "\<exists>ts. map ?f [0..<n] ! j = ''VT'' @ ts @ format_06d (c + int j) \<and>
                   ts = strftime_Ymd_HMS (wall_clock s (clock_reads s + j)) \<and>
                   length ts = 14 \<and> list_all is_digit ts \<and>
                   (0 \<le> c \<longrightarrow> format_06d (c + int j) = zfill 6 (digits (nat (c + int j))))"
    if "j < n" for j
    using that clock
    by (simp add: length_strftime_Ymd_HMS strftime_Ymd_HMS_all_digit format_06d_nonneg)
  have cnt: "id_counter ?s' = Some (c + int n)" by simp
  have fl: "file_writable s \<and> 0 < n \<longrightarrow> counter_file ?s' = Some (c + int n)"
    by (simp add: get_id_generator_frame)
  show ?thesis
  proof (intro exI conjI)
    show "get_multiple_ids n s = Inr (map ?f [0..<n], ?s')" by (rule run)
    show "length (map ?f [0..<n]) = n" by simp
    show "distinct (map ?f [0..<n])" by (rule dist)
    show "\<forall>j<n. \<exists>ts. map ?f [0..<n] ! j = ''VT'' @ ts @ format_06d (c + int j) \<and>
                   ts = strftime_Ymd_HMS (wall_clock s (clock_reads s + j)) \<and>
                   length ts = 14 \<and> list_all is_digit ts \<and>
                   (0 \<le> c \<longrightarrow> format_06d (c + int j) = zfill 6 (digits (nat (c + int j))))"
      using form by blast
    show "id_counter ?s' = Some (c + int n)" by (rule cnt)
    show "file_writable s \<and> 0 < n \<longrightarrow> counter_file ?s' = Some (c + int n)" by (rule fl)
  qed
qed

theorem id_generator_distinct_format_counter_witness:
  "(\<forall>k. valid_datetime (wall_clock world0 k)) \<and> id_counter (get_id_generator world0) = Some 41 \<and>
   (\<exists>ids s'. get_multiple_ids 2 world0 = Inr (ids, s') \<and> distinct ids \<and>
      ids ! 0 = ''VT20240105093000000041'' \<and> ids ! 1 = ''VT20240105093000000042'' \<and>
      id_counter s' = Some 43 \<and> counter_file s' = Some 43)"
proof -
  have v: "\<forall>k. valid_datetime (wall_clock world0 k)"
    by (simp add: world0_def valid_clock0)
  have c: "id_counter (get_id_generator world0) = Some 41"
    by (simp add: get_id_generator_counter world0_def)
  have w: "file_writable world0" "wall_clock world0 = clock0" by (simp_all add: world0_def)
  have f0: "format_06d 41 = ''000041''" by code_simp
  have f1: "format_06d 42 = ''000042''" by code_simp
  from id_generator_distinct_format_counter [OF v c, of 2]
  obtain ids s' where r: "get_multiple_ids 2 world0 = Inr (ids, s')" "distinct ids"
    and form: "\<And>j. j < 2 \<Longrightarrow> ids ! j = ''VT'' @
        strftime_Ymd_HMS (wall_clock world0 (clock_reads world0 + j)) @ format_06d (41 + int j)"
    and cnt: "id_counter s' = Some (41 + int 2)"
    and fl: "file_writable world0 \<and> 0 < (2::nat) \<longrightarrow> counter_file s' = Some (41 + int 2)"
    by blast
  from form [of 0] have i0: "ids ! 0 = ''VT20240105093000000041''"
    by (simp add: w strftime_clock0 f0)
  from form [of 1] have i1: "ids ! 1 = ''VT20240105093000000042''"
    by (simp add: w strftime_clock0 f1)
  from cnt have c': "id_counter s' = Some 43" by simp
  from fl w have f': "counter_file s' = Some 43" by simp
  from v c r i0 i1 c' f' show ?thesis by blast
qed

section \<open>Stage 1: groups, sums, names, order\<close>


lemma core_set_wallet_name: "map core (set_wallet_name a n g) = map core g"
  by (simp add: set_wallet_name_def core_def)

lemma core_foldl_names:
  "map core (foldl (\<lambda>g (addr, name). case addr of None \<Rightarrow> g
                                        | Some a \<Rightarrow> set_wallet_name a name g) g l)
   = map core g"
  by (induction l arbitrary: g) (auto simp: core_set_wallet_name split: option.splits)

lemma core_replace_names: "map core (replace_names w g) = map core g"
  by (simp add: replace_names_def core_foldl_names)



lemma length_replace_names: "length (replace_names w g) = length g"
  using arg_cong [OF core_replace_names, of length w g] by simp



lemma stage1_named_Nil: "balance_adjustments rows = [] \<Longrightarrow> stage1_named rows w = []"
  using length_replace_names [of w "groupby_sum []"]
  by (simp add: stage1_named_def groupby_sum_def)

lemma process_stage_1_rows:
  "fst (process_stage_1 rows w) = sort_key stage1_order (map stage1_columns (stage1_named rows w))"
  by (simp add: process_stage_1_def stage1_named_Nil)

lemma stage1_named_example: "stage1_named anch wl = [g_aaa, g_abc]"
  by code_simp




text \<open>
  Claim C7. Stage 1 keeps the rows whose Type is equal, character for character,
  to \<^verbatim>\<open>Balance Adjustment\<close>, and its result depends on no other row; when no row
  has that Type the result is the empty table and one warning, no error.
\<close>

theorem stage1_balance_adjustment_filter:
  "balance_adjustments anchorage_df = filter (\<lambda>r. Type r = ''Balance Adjustment'') anchorage_df \<and>
   process_stage_1 anchorage_df wallets_df =
     process_stage_1 (balance_adjustments anchorage_df) wallets_df \<and>
   ((\<forall>r \<in> set anchorage_df. Type r \<noteq> ''Balance Adjustment'') \<longrightarrow>
      process_stage_1 anchorage_df wallets_df =
        ([], [Warning ''No Balance Adjustment transactions found in the data.'']))"
proof -
  have idem: "balance_adjustments (balance_adjustments anchorage_df) =
      balance_adjustments anchorage_df"
    by (simp add: balance_adjustments_def)
  have "process_stage_1 anchorage_df wallets_df =
     process_stage_1 (balance_adjustments anchorage_df) wallets_df"
    by (simp add: process_stage_1_def stage1_named_def idem)
  moreover have "(\<forall>r \<in> set anchorage_df. Type r \<noteq> ''Balance Adjustment'') \<longrightarrow>
      process_stage_1 anchorage_df wallets_df =
        ([], [Warning ''No Balance Adjustment transactions found in the data.''])"
    by (simp add: process_stage_1_def balance_adjustments_def filter_empty_conv)
  ultimately show ?thesis by (simp add: balance_adjustments_def)
qed

theorem stage1_balance_adjustment_filter_witness:
  "Type (anch ! 2) = ''balance adjustment'' \<and> Type (anch ! 2) \<noteq> ''Balance Adjustment'' \<and>
   process_stage_1 [anch ! 2] wl =
     ([], [Warning ''No Balance Adjustment transactions found in the data.''])"
proof -
  have t: "Type (anch ! 2) = ''balance adjustment''" by (simp add: anch_def)
  then have h: "\<forall>r \<in> set [anch ! 2]. Type r \<noteq> ''Balance Adjustment''" by simp
  from stage1_balance_adjustment_filter [of "[anch ! 2]" wl] h
  have "process_stage_1 [anch ! 2] wl =
      ([], [Warning ''No Balance Adjustment transactions found in the data.''])"
    by blast
  with t show ?thesis by simp
qed

subsection \<open>The name of an address that several wallets list\<close>

lemma map_of_foldl_update:
  "map_of (foldl (\<lambda>d (k, v). AList.update k v d) d kvs) = map_of d ++ map_of (rev kvs)"
proof (induction kvs arbitrary: d)
  case Nil
  show ?case by simp
next
  case (Cons kv kvs)
  obtain k v where kv: "kv = (k, v)" by (cases kv)
  have "map_of (AList.update k v d) ++ map_of (rev kvs) = map_of d ++ (map_of (rev kvs @ [(k, v)]))"
    by (rule ext) (simp add: update_conv' map_add_def split: option.splits)
  with Cons.IH [of "AList.update k v d"] kv show ?case by simp
qed

lemma map_of_py_dict: "map_of (py_dict kvs) = map_of (rev kvs)"
  by (simp add: py_dict_def map_of_foldl_update)

lemma distinct_foldl_update:
  "distinct (map fst d) \<Longrightarrow> distinct (map fst (foldl (\<lambda>d (k, v). AList.update k v d) d kvs))"
  by (induction kvs arbitrary: d) (auto simp: distinct_update)

lemma distinct_py_dict: "distinct (map fst (py_dict kvs))"
  by (simp add: py_dict_def distinct_foldl_update)

lemma foldl_names_rename:
  "distinct (map fst l) \<Longrightarrow>
   foldl (\<lambda>g (addr, name). case addr of None \<Rightarrow> g | Some a \<Rightarrow> set_wallet_name a name g) g l
   = map (rename l) g"
proof (induction l arbitrary: g)
  case Nil
  show ?case by (simp add: rename_def)
next
  case (Cons x l)
  obtain addr name where x: "x = (addr, name)" by (cases x)
  from Cons.prems x have d: "distinct (map fst l)" and nin: "addr \<notin> fst ` set l" by auto
  from nin have none: "map_of l addr = None" by (simp add: map_of_eq_None_iff)
  show ?case
  proof (cases addr)
    case None
    then show ?thesis using Cons.IH [OF d] x by (simp add: rename_def)
  next
    case (Some a)
    have "map (rename l) (set_wallet_name a name g) = map (rename ((Some a, name) # l)) g"
      using none Some by (auto simp: set_wallet_name_def rename_def)
    with Cons.IH [OF d, of "set_wallet_name a name g"] x Some show ?thesis by simp
  qed
qed

lemma map_of_rev_zip_last:
  "filter (\<lambda>w. Addresses w = Some a) ws \<noteq> [] \<Longrightarrow>
   map_of (rev (zip (map Addresses ws) (map Name ws))) (Some a) =
     Some (Name (last (filter (\<lambda>w. Addresses w = Some a) ws)))"
  by (induction ws rule: rev_induct) auto

lemma replace_names_last:
  assumes "g \<in> set (replace_names ws gs)"
    and "filter (\<lambda>w. Addresses w = Some (g_Destination_Address g)) ws \<noteq> []"
  shows "g_Wallet_Name g =
           Name (last (filter (\<lambda>w. Addresses w = Some (g_Destination_Address g)) ws))"
proof -
  let ?l = "py_dict (zip (map Addresses ws) (map Name ws))"
  from assms(2) have "ws \<noteq> []" by auto
  then have "replace_names ws gs = map (rename ?l) gs"
    by (simp add: replace_names_def foldl_names_rename [OF distinct_py_dict])
  with assms(1) obtain g0 where g0: "g0 \<in> set gs" "g = rename ?l g0" by auto
  then have a: "g_Destination_Address g = g_Destination_Address g0"
    by (simp add: rename_def split: option.splits)
  from assms(2) have "map_of ?l (Some (g_Destination_Address g0)) =
      Some (Name (last (filter (\<lambda>w. Addresses w = Some (g_Destination_Address g0)) ws)))"
    unfolding a map_of_py_dict by (rule map_of_rev_zip_last)
  with g0(2) show ?thesis unfolding a by (simp add: rename_def)
qed

text \<open>
  Claim C10. A row of the grouped frame whose destination address is listed by
  one or more wallets of the directory gets the Name of the last of them, and
  carries it into the output of Stage 1.
\<close>

theorem stage1_duplicate_address_last_name:
  assumes "g \<in> set (stage1_named anchorage_df wallets_df)"
    and "filter (\<lambda>w. Addresses w = Some (g_Destination_Address g)) wallets_df \<noteq> []"
  shows "g_Wallet_Name g =
           Name (last (filter (\<lambda>w. Addresses w = Some (g_Destination_Address g)) wallets_df)) \<and>
         stage1_columns g \<in> set (fst (process_stage_1 anchorage_df wallets_df)) \<and>
         Wallet_Name (stage1_columns g) =
           Name (last (filter (\<lambda>w. Addresses w = Some (g_Destination_Address g)) wallets_df))"
proof -
  from assms have n: "g_Wallet_Name g =
      Name (last (filter (\<lambda>w. Addresses w = Some (g_Destination_Address g)) wallets_df))"
    unfolding stage1_named_def by (rule replace_names_last)
  from assms(1) have "stage1_columns g \<in> set (fst (process_stage_1 anchorage_df wallets_df))"
    by (simp add: process_stage_1_rows)
  with n show ?thesis by (simp add: stage1_columns_def)
qed

theorem stage1_duplicate_address_last_name_witness:
  "g_abc \<in> set (stage1_named anch wl) \<and>
   filter (\<lambda>w. Addresses w = Some (g_Destination_Address g_abc)) wl = [wl ! 0, wl ! 3] \<and>
   Name (wl ! 0) = ''Old'' \<and> Name (wl ! 3) = ''Aptos TeamA'' \<and>
   stage1_columns g_abc \<in> set (fst (process_stage_1 anch wl)) \<and>
   Wallet_Name (stage1_columns g_abc) = ''Aptos TeamA''"
proof -
  have m: "g_abc \<in> set (stage1_named anch wl)" by (simp add: stage1_named_example)
  have f: "filter (\<lambda>w. Addresses w = Some (g_Destination_Address g_abc)) wl = [wl ! 0, wl ! 3]"
    by (simp add: wl_def g_abc_def)
  then have ne: "filter (\<lambda>w. Addresses w = Some (g_Destination_Address g_abc)) wl \<noteq> []" by simp
  have n: "Name (wl ! 0) = ''Old''" "Name (wl ! 3) = ''Aptos TeamA''" by (simp_all add: wl_def)
  from stage1_duplicate_address_last_name [OF m ne] f n m show ?thesis by simp
qed

section \<open>Stage 2: the ids it draws and the rows it writes\<close>

lemma get_id_generator_loaded: "id_counter s = Some c \<Longrightarrow> get_id_generator s = s"
  by (simp add: get_id_generator_def load_counter_def)

lemma get_id_generator_idem: "get_id_generator (get_id_generator s) = get_id_generator s"
  by (simp add: get_id_generator_def load_counter_def split: option.splits)

lemma next_id_loaded:
  "id_counter s = Some c \<Longrightarrow>
   get_next_id (get_id_generator s) = Inr (issued_id s c 0, after_issuing s c 1)"
  by (simp add: get_id_generator_loaded get_next_id_Some issued_id_def after_issuing_def)

lemma after_issuing_fields:
  "id_counter (after_issuing s c n) = Some (c + int n)"
  "wall_clock (after_issuing s c n) = wall_clock s"
  "clock_reads (after_issuing s c n) = clock_reads s + n"
  "file_writable (after_issuing s c n) = file_writable s"
  "stage3_matched_transactions (after_issuing s c n) = stage3_matched_transactions s"
  "counter_file (after_issuing s c n) =
     (if file_writable s \<and> 0 < n then Some (c + int n) else counter_file s)"
  by (simp_all add: after_issuing_def)

lemma after_issuing_0: "id_counter s = Some c \<Longrightarrow> after_issuing s c 0 = s"
  by (simp add: after_issuing_def)

lemma after_issuing_add:
  "c' = c + int m \<Longrightarrow> after_issuing (after_issuing s c m) c' n = after_issuing s c (m + n)"
  by (cases "file_writable s"; cases "0 < m"; cases "0 < n")
     (simp_all add: after_issuing_def add.assoc)

lemma issued_id_after:
  "c' = c + int m \<Longrightarrow> issued_id (after_issuing s c m) c' k = issued_id s c (m + k)"
  by (simp add: issued_id_def after_issuing_def add.assoc)

lemma issued_id_generator: "issued_id (get_id_generator s) c k = issued_id s c k"
  by (simp add: issued_id_def get_id_generator_frame)

lemma issued_id_inj:
  assumes "\<forall>k. valid_datetime (wall_clock s k)" and "issued_id s c i = issued_id s c j"
  shows "i = j"
proof -
  from assms(2) have "strftime_Ymd_HMS (wall_clock s (clock_reads s + i)) @ format_06d (c + int i) =
      strftime_Ymd_HMS (wall_clock s (clock_reads s + j)) @ format_06d (c + int j)"
    by (simp add: issued_id_def)
  moreover have "length (strftime_Ymd_HMS (wall_clock s (clock_reads s + i))) =
      length (strftime_Ymd_HMS (wall_clock s (clock_reads s + j)))"
    using assms(1) by (simp add: length_strftime_Ymd_HMS)
  ultimately have "format_06d (c + int i) = format_06d (c + int j)" by simp
  then have "c + int i = c + int j" by (rule format_06d_inj)
  then show ?thesis by simp
qed

lemma get_multiple_ids_closed:
  "id_counter (get_id_generator s) = Some c \<Longrightarrow>
   get_multiple_ids n s =
     Inr (map (issued_id s c) [0..<n], after_issuing (get_id_generator s) c n)"
  unfolding get_multiple_ids_def
  by (simp add: get_multiple_ids_loop_closed issued_id_def [abs_def] after_issuing_def
      get_id_generator_frame)

lemma stage2_row_loaded:
  assumes "id_counter s = Some c"
  shows "stage2_row wallets_df vesting_pairs_df row s =
           (Inr (stage2_entries wallets_df vesting_pairs_df row (issued_id s c 0) (issued_id s c 1)),
            stage2_msgs wallets_df vesting_pairs_df row, after_issuing s c 2)"
proof -
  have 1: "get_next_id (get_id_generator s) = Inr (issued_id s c 0, after_issuing s c 1)"
    by (rule next_id_loaded [OF assms])
  have "get_next_id (get_id_generator (after_issuing s c 1)) =
          Inr (issued_id (after_issuing s c 1) (c + int 1) 0,
               after_issuing (after_issuing s c 1) (c + int 1) 1)"
    by (rule next_id_loaded) (simp add: after_issuing_fields)
  moreover have "issued_id (after_issuing s c 1) (c + int 1) 0 = issued_id s c 1"
    using issued_id_after [of "c + int 1" c 1 s 0] by simp
  moreover have "after_issuing (after_issuing s c 1) (c + int 1) 1 = after_issuing s c 2"
    using after_issuing_add [of "c + int 1" c 1 s 1] by (simp add: numeral_2_eq_2)
  ultimately have 2: "get_next_id (get_id_generator (after_issuing s c 1)) =
          Inr (issued_id s c 1, after_issuing s c 2)"
    by simp
  show ?thesis
    unfolding stage2_row_def Let_def 1 sum.case prod.case 2
    by (simp add: stage2_entries_def stage2_msgs_def split_beta del: One_nat_def)
qed

lemma stage2_loop_loaded:
  "id_counter s = Some c \<Longrightarrow>
   stage2_loop wallets_df vesting_pairs_df rows s =
     (Inr (concat (map (\<lambda>i. stage2_entries wallets_df vesting_pairs_df (rows ! i)
                              (issued_id s c (2 * i)) (issued_id s c (2 * i + 1)))
                       [0..<length rows])),
      concat (map (stage2_msgs wallets_df vesting_pairs_df) rows),
      after_issuing s c (2 * length rows))"
proof (induction rows arbitrary: s c)
  case Nil
  then show ?case by (simp add: after_issuing_0)
next
  case (Cons row rows)
  have c2: "id_counter (after_issuing s c 2) = Some (c + int 2)"
    by (simp add: after_issuing_fields)
  have ih: "stage2_loop wallets_df vesting_pairs_df rows (after_issuing s c 2) =
     (Inr (concat (map (\<lambda>i. stage2_entries wallets_df vesting_pairs_df (rows ! i)
                              (issued_id s c (2 + 2 * i)) (issued_id s c (2 + (2 * i + 1))))
                       [0..<length rows])),
      concat (map (stage2_msgs wallets_df vesting_pairs_df) rows),
      after_issuing s c (2 + 2 * length rows))"
    unfolding Cons.IH [OF c2]
    by (simp only: issued_id_after [OF refl] after_issuing_add [OF refl])
  have m: "map f [0..<length (row # rows)] = f 0 # map (\<lambda>i. f (Suc i)) [0..<length rows]"
    for f :: "nat \<Rightarrow> ledger_entry list"
    by (simp add: upt_conv_Cons map_Suc_upt [symmetric] del: upt_Suc)
  show ?case
    unfolding stage2_loop.simps stage2_row_loaded [OF Cons.prems] m
    by (simp add: ih)
qed

lemma stage2_row_generator:
  "stage2_row wallets_df vesting_pairs_df row (get_id_generator s) =
   stage2_row wallets_df vesting_pairs_df row s"
  unfolding stage2_row_def get_id_generator_idem by (rule refl)

lemma stage2_loop_generator:
  "rows \<noteq> [] \<Longrightarrow>
   stage2_loop wallets_df vesting_pairs_df rows (get_id_generator s) =
   stage2_loop wallets_df vesting_pairs_df rows s"
  by (cases rows) (simp_all add: stage2_row_generator)

lemma process_stage_2_closed:
  assumes "id_counter (get_id_generator s) = Some c" and "rows \<noteq> []"
  shows "process_stage_2 rows wallets_df vesting_pairs_df s =
     (concat (map (\<lambda>i. stage2_entries wallets_df vesting_pairs_df (rows ! i)
                              (issued_id s c (2 * i)) (issued_id s c (2 * i + 1)))
                       [0..<length rows]),
      concat (map (stage2_msgs wallets_df vesting_pairs_df) rows),
      after_issuing (get_id_generator s) c (2 * length rows))"
proof -
  have "stage2_loop wallets_df vesting_pairs_df rows s =
        stage2_loop wallets_df vesting_pairs_df rows (get_id_generator s)"
    by (rule stage2_loop_generator [OF assms(2), symmetric])
  then show ?thesis
    using assms(2)
    by (simp add: process_stage_2_def stage2_loop_loaded [OF assms(1)] issued_id_generator)
qed

lemma stage2_entries_truthy:
  "stage2_entries wallets_df vesting_pairs_df row wid did =
     (if truthy (fst (get_withdrawal_account_id (Wallet_Name row) wallets_df))
      then [withdrawal_row wid (s1_Asset_Quantity_Before_Fee row) (s1_Value_USD row)
              (strftime_mdY_HMS (noon (Date row)))
              (the (fst (get_withdrawal_account_id (Wallet_Name row) wallets_df))) (Date row)]
      else []) @
     (if truthy (fst (get_deposit_account_id (Wallet_Name row) wallets_df vesting_pairs_df))
      then [deposit_row did (s1_Asset_Quantity_Before_Fee row) (s1_Value_USD row)
              (strftime_mdY_HMS (noon (Date row)))
              (the (fst (get_deposit_account_id (Wallet_Name row) wallets_df vesting_pairs_df)))
              (Date row)]
      else [])"
  by (simp add: stage2_entries_def truthy_def split: option.splits)

lemma stage2_entries_props:
  "length (stage2_entries ws ps row wid did) \<le> 2"
  "length (filter (\<lambda>e. transactionType e = ''withdrawal'') (stage2_entries ws ps row wid did)) \<le> 1"
  "length (filter (\<lambda>e. transactionType e = ''deposit'') (stage2_entries ws ps row wid did)) \<le> 1"
  "e \<in> set (stage2_entries ws ps row wid did) \<Longrightarrow>
     amount e = s1_Asset_Quantity_Before_Fee row \<and> cost e = Some (s1_Value_USD row) \<and>
     time e = strftime_mdY_HMS (noon (Date row))"
  by (auto simp: stage2_entries_truthy withdrawal_row_def deposit_row_def split: if_splits)

lemma le_id_stage2_entries:
  assumes "e \<in> set (stage2_entries ws ps row wid did)"
  shows "(le_id e = wid \<and> truthy (fst (get_withdrawal_account_id (Wallet_Name row) ws))) \<or>
         (le_id e = did \<and> truthy (fst (get_deposit_account_id (Wallet_Name row) ws ps)))"
  using assms
  by (auto simp: stage2_entries_truthy withdrawal_row_def deposit_row_def split: if_splits)

subsection \<open>The example run\<close>

lemma strip_aptos_example: "str_replace ''Aptos '' '''' ''Aptos TeamA'' = ''TeamA''"
  by code_simp

lemma withdrawal_lookup_abc: "get_withdrawal_account_id ''Aptos TeamA'' wl = (Some ''W1'', [])"
  by (simp add: get_withdrawal_account_id_def startswith_def strip_aptos_example wl_def)

lemma deposit_lookup_abc: "get_deposit_account_id ''Aptos TeamA'' wl vp = (Some ''W2'', [])"
  by (simp add: get_deposit_account_id_def wl_def vp_def)

lemma withdrawal_lookup_aaa:
  "get_withdrawal_account_id ''0xAAA'' wl =
     (None, [Error ''0xAAA is missing a vesting tokens wallet''])"
  by (simp add: get_withdrawal_account_id_def startswith_def wl_def)

lemma deposit_lookup_aaa:
  "get_deposit_account_id ''0xAAA'' wl vp =
     (None, [Error ''No Originating Wallet Match in the Vesting Wallet Pairs table for 0xAAA''])"
  by (simp add: get_deposit_account_id_def vp_def)

lemma noon_jan5_text: "strftime_mdY_HMS (noon jan5) = ''01/05/2024 12:00:00''"
  by code_simp

lemma world0_start: "id_counter (get_id_generator world0) = Some 41"
  by (simp add: get_id_generator_counter world0_def)

lemma world0_clock: "\<forall>k. valid_datetime (wall_clock world0 k)"
  by (simp add: world0_def valid_clock0)

lemma issued_id_world0:
  "issued_id world0 41 0 = ''VT20240105093000000041''"
  "issued_id world0 41 1 = ''VT20240105093000000042''"
  "issued_id world0 41 2 = ''VT20240105093000000043''"
  "issued_id world0 41 3 = ''VT20240105093000000044''"
  unfolding issued_id_def world0_def clock0_def jan5_def by code_simp+

text \<open>
  Claim C6. The output of Stage 2 is the concatenation of one part for each row of
  its input, in order. Each part has at most two entries, at most one withdrawal
  and at most one deposit, and every entry of the part of a row has that row's
  quantity as amount, that row's USD value as cost, and as time the text of noon
  on that row's date, which for a date of the calendar reads back as that noon.
\<close>

theorem stage2_at_most_two_entries_per_row:
  "\<exists>parts. fst (process_stage_2 stage1_df wallets_df vesting_pairs_df s) = concat parts \<and>
     length parts = length stage1_df \<and>
     (\<forall>i<length stage1_df.
        length (parts ! i) \<le> 2 \<and>
        length (filter (\<lambda>e. transactionType e = ''withdrawal'') (parts ! i)) \<le> 1 \<and>
        length (filter (\<lambda>e. transactionType e = ''deposit'') (parts ! i)) \<le> 1 \<and>
        (\<forall>e \<in> set (parts ! i).
           amount e = s1_Asset_Quantity_Before_Fee (stage1_df ! i) \<and>
           cost e = Some (s1_Value_USD (stage1_df ! i)) \<and>
           time e = strftime_mdY_HMS (noon (Date (stage1_df ! i))) \<and>
           (valid_date (Date (stage1_df ! i)) \<longrightarrow>
              strptime_mdY_HMS (time e) = Some (noon (Date (stage1_df ! i))))))"
proof (cases "stage1_df = []")
  case True
  then have "fst (process_stage_2 stage1_df wallets_df vesting_pairs_df s) = concat []"
    by (simp add: process_stage_2_def)
  with True show ?thesis by (intro exI [of _ "[]"]) simp
next
  case False
  obtain c where c: "id_counter (get_id_generator s) = Some c"
    by (simp add: get_id_generator_counter)
  let ?parts = "map (\<lambda>i. stage2_entries wallets_df vesting_pairs_df (stage1_df ! i)
                              (issued_id s c (2 * i)) (issued_id s c (2 * i + 1)))
                       [0..<length stage1_df]"
  have "fst (process_stage_2 stage1_df wallets_df vesting_pairs_df s) = concat ?parts"
    by (simp add: process_stage_2_closed [OF c False])
  moreover have "length ?parts = length stage1_df" by simp
  moreover have "\<forall>i<length stage1_df.
        length (?parts ! i) \<le> 2 \<and>
        length (filter (\<lambda>e. transactionType e = ''withdrawal'') (?parts ! i)) \<le> 1 \<and>
        length (filter (\<lambda>e. transactionType e = ''deposit'') (?parts ! i)) \<le> 1 \<and>
        (\<forall>e \<in> set (?parts ! i).
           amount e = s1_Asset_Quantity_Before_Fee (stage1_df ! i) \<and>
           cost e = Some (s1_Value_USD (stage1_df ! i)) \<and>
           time e = strftime_mdY_HMS (noon (Date (stage1_df ! i))) \<and>
           (valid_date (Date (stage1_df ! i)) \<longrightarrow>
              strptime_mdY_HMS (time e) = Some (noon (Date (stage1_df ! i)))))"
    using stage2_entries_props by (simp add: strptime_strftime_noon)
  ultimately show ?thesis by blast
qed

theorem stage2_at_most_two_entries_per_row_witness:
  "valid_date (Date row_abc) \<and>
   length (fst (process_stage_2 [row_abc] wl vp world0)) = 2 \<and>
   map amount (fst (process_stage_2 [row_abc] wl vp world0)) = [100, 100] \<and>
   map cost (fst (process_stage_2 [row_abc] wl vp world0)) = [Some 500, Some 500] \<and>
   map time (fst (process_stage_2 [row_abc] wl vp world0)) =
     [''01/05/2024 12:00:00'', ''01/05/2024 12:00:00''] \<and>
   map (\<lambda>e. strptime_mdY_HMS (time e)) (fst (process_stage_2 [row_abc] wl vp world0)) =
     [Some (noon jan5), Some (noon jan5)]"
proof -
  have v: "valid_date (Date row_abc)"
    by (simp add: row_abc_def jan5_def valid_date_def days_in_month_def)
  have len: "length (fst (process_stage_2 [row_abc] wl vp world0)) = 2"
    by (simp add: process_stage_2_closed [OF world0_start] stage2_entries_def row_abc_def
        withdrawal_lookup_abc deposit_lookup_abc)
  then obtain a b where ab: "fst (process_stage_2 [row_abc] wl vp world0) = [a, b]"
    by (auto simp: length_Suc_conv numeral_2_eq_2)
  from stage2_at_most_two_entries_per_row [of "[row_abc]" wl vp world0]
  obtain parts where p: "fst (process_stage_2 [row_abc] wl vp world0) = concat parts"
    "length parts = 1"
    "\<forall>e \<in> set (parts ! 0). amount e = s1_Asset_Quantity_Before_Fee row_abc \<and>
        cost e = Some (s1_Value_USD row_abc) \<and> time e = strftime_mdY_HMS (noon (Date row_abc)) \<and>
        (valid_date (Date row_abc) \<longrightarrow>
           strptime_mdY_HMS (time e) = Some (noon (Date row_abc)))"
    by auto
  from p(2) obtain q where q: "parts = [q]" by (cases parts) auto
  from p(3) q v have "\<forall>e \<in> set (concat parts).
      amount e = 100 \<and> cost e = Some 500 \<and> time e = ''01/05/2024 12:00:00'' \<and>
      strptime_mdY_HMS (time e) = Some (noon jan5)"
    by (auto simp: row_abc_def noon_jan5_text)
  then have "\<forall>e \<in> set [a, b].
      amount e = 100 \<and> cost e = Some 500 \<and> time e = ''01/05/2024 12:00:00'' \<and>
      strptime_mdY_HMS (time e) = Some (noon jan5)"
    by (simp only: p(1) [symmetric] ab)
  then have f: "amount a = 100" "cost a = Some 500" "time a = ''01/05/2024 12:00:00''"
    "amount b = 100" "cost b = Some 500" "time b = ''01/05/2024 12:00:00''"
    and r: "strptime_mdY_HMS (time a) = Some (noon jan5)"
    "strptime_mdY_HMS (time b) = Some (noon jan5)"
    by auto
  have "map (\<lambda>e. strptime_mdY_HMS (time e)) [a, b] = [Some (noon jan5), Some (noon jan5)]"
    by (simp add: r)
  with v f show ?thesis by (simp only: ab list.map list.size) simp
qed

text \<open>
  Claim C8. Stage 2 starts from a generator whose counter is \<open>c\<close>. The ids it draws
  are the ones \<open>2n\<close> issuances give for an input of \<open>n\<close> rows, and it leaves the state
  they lead to: the counter has advanced by two for each row, whatever the lookups
  found, in the session and, when the file can be written, in the file. The row of index \<open>i\<close> uses the id of index \<open>2i\<close> for its withdrawal and the
  id of index \<open>2i + 1\<close> for its deposit; when the withdrawal (the deposit) of a row
  is skipped its id is the id of no row of the output.
\<close>

theorem stage2_draws_two_ids_per_row:
  assumes clock: "\<forall>k. valid_datetime (wall_clock s k)"
    and start: "id_counter (get_id_generator s) = Some c"
    and run: "process_stage_2 stage1_df wallets_df vesting_pairs_df s = (out, msgs, s')"
  shows "\<exists>ids sg. get_multiple_ids (2 * length stage1_df) s = Inr (ids, sg) \<and>
           (stage1_df \<noteq> [] \<longrightarrow> s' = sg) \<and>
           id_counter (get_id_generator s') = Some (c + 2 * int (length stage1_df)) \<and>
           (stage1_df \<noteq> [] \<and> file_writable s \<longrightarrow>
              counter_file s' = Some (c + 2 * int (length stage1_df))) \<and>
           out = concat (map (\<lambda>i. stage2_entries wallets_df vesting_pairs_df (stage1_df ! i)
                                    (ids ! (2 * i)) (ids ! (2 * i + 1)))
                             [0..<length stage1_df]) \<and>
           (\<forall>i<length stage1_df.
              (\<not> truthy (fst (get_withdrawal_account_id (Wallet_Name (stage1_df ! i)) wallets_df))
                 \<longrightarrow> ids ! (2 * i) \<notin> le_id ` set out) \<and>
              (\<not> truthy (fst (get_deposit_account_id (Wallet_Name (stage1_df ! i)) wallets_df
                                vesting_pairs_df))
                 \<longrightarrow> ids ! (2 * i + 1) \<notin> le_id ` set out))"
proof -
  let ?n = "length stage1_df"
  let ?ids = "map (issued_id s c) [0..<2 * ?n]"
  let ?sg = "after_issuing (get_id_generator s) c (2 * ?n)"
  let ?W = "\<lambda>i. truthy (fst (get_withdrawal_account_id (Wallet_Name (stage1_df ! i)) wallets_df))"
  let ?D = "\<lambda>i. truthy (fst (get_deposit_account_id (Wallet_Name (stage1_df ! i)) wallets_df
                                vesting_pairs_df))"
  have ids: "get_multiple_ids (2 * ?n) s = Inr (?ids, ?sg)"
    by (rule get_multiple_ids_closed [OF start])
  have nth: "?ids ! (2 * i) = issued_id s c (2 * i)" "?ids ! (2 * i + 1) = issued_id s c (2 * i + 1)"
    if "i < ?n" for i
    using that by simp_all
  have out: "out = concat (map (\<lambda>i. stage2_entries wallets_df vesting_pairs_df (stage1_df ! i)
                                    (issued_id s c (2 * i)) (issued_id s c (2 * i + 1))) [0..<?n])"
  proof (cases "stage1_df = []")
    case True
    with run show ?thesis by (simp add: process_stage_2_def)
  next
    case False
    from run show ?thesis by (simp add: process_stage_2_closed [OF start False])
  qed
  have out': "out = concat (map (\<lambda>i. stage2_entries wallets_df vesting_pairs_df (stage1_df ! i)
                                    (?ids ! (2 * i)) (?ids ! (2 * i + 1))) [0..<?n])"
    unfolding out
    by (rule arg_cong [where f = concat], rule map_cong)
       (simp_all only: nth atLeastLessThan_iff set_upt)
  have st: "stage1_df \<noteq> [] \<longrightarrow> s' = ?sg"
    using run by (auto simp: process_stage_2_closed [OF start])
  have cnt: "id_counter (get_id_generator s') = Some (c + 2 * int ?n)"
  proof (cases "stage1_df = []")
    case True
    with run have "s' = s" by (simp add: process_stage_2_def)
    with True start show ?thesis by simp
  next
    case False
    with st have "s' = ?sg" by simp
    then have "id_counter s' = Some (c + int (2 * ?n))" by (simp add: after_issuing_fields)
    then show ?thesis by (simp add: get_id_generator_loaded)
  qed
  have fl: "stage1_df \<noteq> [] \<and> file_writable s \<longrightarrow> counter_file s' = Some (c + 2 * int ?n)"
    using st by (simp add: after_issuing_fields get_id_generator_frame)
  have mem: "\<exists>j<?n. (le_id e = issued_id s c (2 * j) \<and> ?W j) \<or>
                      (le_id e = issued_id s c (2 * j + 1) \<and> ?D j)"
    if "e \<in> set out" for e
  proof -
    from that obtain j where j: "j < ?n"
      "e \<in> set (stage2_entries wallets_df vesting_pairs_df (stage1_df ! j)
                  (issued_id s c (2 * j)) (issued_id s c (2 * j + 1)))"
      unfolding out by auto
    from le_id_stage2_entries [OF j(2)] j(1) show ?thesis by blast
  qed
  have skipped: "(\<not> ?W i \<longrightarrow> ?ids ! (2 * i) \<notin> le_id ` set out) \<and>
                 (\<not> ?D i \<longrightarrow> ?ids ! (2 * i + 1) \<notin> le_id ` set out)"
    if i: "i < ?n" for i
  proof (intro conjI impI notI)
    assume nw: "\<not> ?W i" and "?ids ! (2 * i) \<in> le_id ` set out"
    then obtain e where e: "e \<in> set out" "le_id e = issued_id s c (2 * i)"
      using nth(1) [OF i] by auto
    from mem [OF e(1)] obtain j where j: "j < ?n"
      "(le_id e = issued_id s c (2 * j) \<and> ?W j) \<or> (le_id e = issued_id s c (2 * j + 1) \<and> ?D j)"
      by blast
    from j(2) show False
    proof
      assume a: "le_id e = issued_id s c (2 * j) \<and> ?W j"
      with e(2) have "2 * i = 2 * j" using issued_id_inj [OF clock] by metis
      with a nw show False by simp
    next
      assume a: "le_id e = issued_id s c (2 * j + 1) \<and> ?D j"
      with e(2) have "2 * i = 2 * j + 1" using issued_id_inj [OF clock] by metis
      then show False by presburger
    qed
  next
    assume nd: "\<not> ?D i" and "?ids ! (2 * i + 1) \<in> le_id ` set out"
    then obtain e where e: "e \<in> set out" "le_id e = issued_id s c (2 * i + 1)"
      using nth(2) [OF i] by auto
    from mem [OF e(1)] obtain j where j: "j < ?n"
      "(le_id e = issued_id s c (2 * j) \<and> ?W j) \<or> (le_id e = issued_id s c (2 * j + 1) \<and> ?D j)"
      by blast
    from j(2) show False
    proof
      assume a: "le_id e = issued_id s c (2 * j) \<and> ?W j"
      with e(2) have "2 * i + 1 = 2 * j" using issued_id_inj [OF clock] by metis
      then show False by presburger
    next
      assume a: "le_id e = issued_id s c (2 * j + 1) \<and> ?D j"
      with e(2) have "2 * i + 1 = 2 * j + 1" using issued_id_inj [OF clock] by metis
      with a nd show False by simp
    qed
  qed
  from ids st cnt fl out' skipped show ?thesis by blast
qed

theorem stage2_draws_two_ids_per_row_witness:
  "(\<forall>k. valid_datetime (wall_clock world0 k)) \<and> id_counter (get_id_generator world0) = Some 41 \<and>
   \<not> truthy (fst (get_withdrawal_account_id (Wallet_Name ([row_aaa, row_abc] ! 0)) wl)) \<and>
   \<not> truthy (fst (get_deposit_account_id (Wallet_Name ([row_aaa, row_abc] ! 0)) wl vp)) \<and>
   (\<exists>out msgs s'. process_stage_2 [row_aaa, row_abc] wl vp world0 = (out, msgs, s') \<and>
      id_counter (get_id_generator s') = Some 45 \<and> counter_file s' = Some 45 \<and>
      map le_id out = [''VT20240105093000000043'', ''VT20240105093000000044''] \<and>
      ''VT20240105093000000041'' \<notin> le_id ` set out \<and>
      ''VT20240105093000000042'' \<notin> le_id ` set out)"
proof -
  obtain out msgs s' where run: "process_stage_2 [row_aaa, row_abc] wl vp world0 = (out, msgs, s')"
    by (cases "process_stage_2 [row_aaa, row_abc] wl vp world0") auto
  have nw: "\<not> truthy (fst (get_withdrawal_account_id (Wallet_Name ([row_aaa, row_abc] ! 0)) wl))"
    by (simp add: row_aaa_def withdrawal_lookup_aaa truthy_def)
  have nd: "\<not> truthy (fst (get_deposit_account_id (Wallet_Name ([row_aaa, row_abc] ! 0)) wl vp))"
    by (simp add: row_aaa_def deposit_lookup_aaa truthy_def)
  have ids: "get_multiple_ids 4 world0 =
      Inr (map (issued_id world0 41) [0..<4], after_issuing (get_id_generator world0) 41 4)"
    by (rule get_multiple_ids_closed [OF world0_start])
  from stage2_draws_two_ids_per_row [OF world0_clock world0_start run]
  obtain ids sg where r: "get_multiple_ids (2 * length [row_aaa, row_abc]) world0 = Inr (ids, sg)"
    "id_counter (get_id_generator s') = Some (41 + 2 * int (length [row_aaa, row_abc]))"
    "[row_aaa, row_abc] \<noteq> [] \<and> file_writable world0 \<longrightarrow>
       counter_file s' = Some (41 + 2 * int (length [row_aaa, row_abc]))"
    "out = concat (map (\<lambda>i. stage2_entries wl vp ([row_aaa, row_abc] ! i)
                                    (ids ! (2 * i)) (ids ! (2 * i + 1)))
                             [0..<length [row_aaa, row_abc]])"
    "\<forall>i<length [row_aaa, row_abc].
        (\<not> truthy (fst (get_withdrawal_account_id (Wallet_Name ([row_aaa, row_abc] ! i)) wl))
           \<longrightarrow> ids ! (2 * i) \<notin> le_id ` set out) \<and>
        (\<not> truthy (fst (get_deposit_account_id (Wallet_Name ([row_aaa, row_abc] ! i)) wl vp))
           \<longrightarrow> ids ! (2 * i + 1) \<notin> le_id ` set out)"
    by blast
  from r(1) ids have idl: "ids = map (issued_id world0 41) [0..<4]" by simp
  have i4: "[0..<4] = [0, 1, 2, 3]" by (simp add: upt_rec)
  from idl have idv: "ids = [''VT20240105093000000041'', ''VT20240105093000000042'',
      ''VT20240105093000000043'', ''VT20240105093000000044'']"
    by (simp only: i4 list.map issued_id_world0)
  from r(5) nw nd have "ids ! (2 * 0) \<notin> le_id ` set out \<and> ids ! (2 * 0 + 1) \<notin> le_id ` set out"
    by (metis length_Cons zero_less_Suc)
  with idv have skipped: "''VT20240105093000000041'' \<notin> le_id ` set out"
    "''VT20240105093000000042'' \<notin> le_id ` set out"
    by simp_all
  from r(2) have cnt: "id_counter (get_id_generator s') = Some 45" by simp
  from r(3) have fl: "counter_file s' = Some 45" by (simp add: world0_def)
  have u2: "[0..<length [row_aaa, row_abc]] = [0, 1]" by (simp add: upt_rec)
  from r(4) have "map le_id out = [ids ! 2, ids ! 3]"
    unfolding u2
    by (simp add: stage2_entries_def row_aaa_def row_abc_def withdrawal_lookup_aaa
        deposit_lookup_aaa withdrawal_lookup_abc deposit_lookup_abc withdrawal_row_def
        deposit_row_def)
  with idv have o: "map le_id out = [''VT20240105093000000043'', ''VT20240105093000000044'']"
    by simp
  have "\<exists>out msgs s'. process_stage_2 [row_aaa, row_abc] wl vp world0 = (out, msgs, s') \<and>
      id_counter (get_id_generator s') = Some 45 \<and> counter_file s' = Some 45 \<and>
      map le_id out = [''VT20240105093000000043'', ''VT20240105093000000044''] \<and>
      ''VT20240105093000000041'' \<notin> le_id ` set out \<and>
      ''VT20240105093000000042'' \<notin> le_id ` set out"
    by (rule exI [of _ out], rule exI [of _ msgs], rule exI [of _ s'])
       (simp only: run cnt fl o skipped simp_thms)
  with world0_clock world0_start nw nd show ?thesis by (simp only: simp_thms)
qed

text \<open>
  Claim C4, at an input where the code and the claim part. The wallet name
  \<^verbatim>\<open>Aptos Team Aptos Fund\<close> without its prefix is \<^verbatim>\<open>Team Aptos Fund\<close>, and the
  directory has \<^verbatim>\<open>Team Aptos Fund vesting tokens\<close>; \<^verbatim>\<open>str.replace\<close> removes both
  occurrences of \<^verbatim>\<open>Aptos \<close>, so the lookup is for \<^verbatim>\<open>Team Fund vesting tokens\<close>,
  fails, and the withdrawal is skipped with the wallet reported as missing. The
  deposit of the row is still written.
\<close>

theorem stage2_withdrawal_strips_every_aptos:
  "startswith (Wallet_Name row_fund) ''Aptos '' \<and>
   drop (length ''Aptos '') (Wallet_Name row_fund) @ '' vesting tokens'' = Name (wl_fund ! 0) \<and>
   str_replace ''Aptos '' '''' (Wallet_Name row_fund) = ''Team Fund'' \<and>
   get_withdrawal_account_id (Wallet_Name row_fund) wl_fund =
     (None, [Error ''Aptos Team Aptos Fund is missing a vesting tokens wallet'']) \<and>
   map transactionType (fst (process_stage_2 [row_fund] wl_fund vp_fund world0)) = [''deposit'']"
proof -
  have n: "Wallet_Name row_fund = ''Aptos Team Aptos Fund''" by (simp add: row_fund_def)
  have sw: "startswith (Wallet_Name row_fund) ''Aptos ''" by (simp add: n startswith_def)
  have dr: "drop (length ''Aptos '') (Wallet_Name row_fund) @ '' vesting tokens'' =
      Name (wl_fund ! 0)"
    by (simp add: n wl_fund_def)
  have rp: "str_replace ''Aptos '' '''' (Wallet_Name row_fund) = ''Team Fund''"
    unfolding n by code_simp
  have w: "get_withdrawal_account_id (Wallet_Name row_fund) wl_fund =
     (None, [Error ''Aptos Team Aptos Fund is missing a vesting tokens wallet''])"
    using sw rp by (simp add: get_withdrawal_account_id_def n wl_fund_def)
  have d: "get_deposit_account_id (Wallet_Name row_fund) wl_fund vp_fund = (Some ''W2'', [])"
    by (simp add: get_deposit_account_id_def n wl_fund_def vp_fund_def)
  have "map transactionType (fst (process_stage_2 [row_fund] wl_fund vp_fund world0)) =
      [''deposit'']"
    by (simp add: process_stage_2_closed [OF world0_start] stage2_entries_def w d deposit_row_def)
  with sw dr rp w show ?thesis by simp
qed

section \<open>Stage 3: matches and the records kept of them\<close>

lemma plus_days_midnight:
  "plus_days (midnight dt) n = map_option midnight (add_days n dt)"
  by (cases "add_days n dt") (simp_all add: plus_days_def midnight_def)

lemma matched_append_match: "matched (append_match m s) = matched s @ [m]"
  by (simp add: matched_def append_match_def split: option.splits)

lemma append_match_frame:
  "id_counter (append_match m s) = id_counter s"
  "counter_file (append_match m s) = counter_file s"
  "file_writable (append_match m s) = file_writable s"
  "wall_clock (append_match m s) = wall_clock s"
  "clock_reads (append_match m s) = clock_reads s"
  by (simp_all add: append_match_def split: option.splits)

lemma append_match_nonempty: "stage3_matched_transactions (append_match m s) \<noteq> Some []"
  by (simp add: append_match_def split: option.splits)

lemma calculate_bitwave_amount_closed:
  assumes "add_days 10 dt = Some end_day"
  shows "calculate_bitwave_amount bitwave_df account_id dt expected s =
     (case filter (reward_match account_id dt end_day expected) bitwave_df of
        [] \<Rightarrow> (None, [], s)
      | t # _ \<Rightarrow> (Some (bw_amount t - expected), [], append_match (match_of t expected) s))"
proof -
  have f: "filter (\<lambda>t. expected < bw_amount t)
             (filter (\<lambda>t. datetime_key (midnight dt) < datetime_key (dateTime t) \<and>
                          datetime_key (dateTime t) \<le> datetime_key (midnight end_day))
                (filter (\<lambda>t. walletId t = account_id) bitwave_df)) =
           filter (reward_match account_id dt end_day expected) bitwave_df"
    by (auto simp: reward_match_def intro: filter_cong)
  show ?thesis
  proof (cases "filter (reward_match account_id dt end_day expected) bitwave_df")
    case Nil
    with f show ?thesis
      by (simp add: calculate_bitwave_amount_def plus_days_midnight assms Let_def
          split: list.splits)
  next
    case (Cons t ts)
    then have "t \<in> set (filter (reward_match account_id dt end_day expected) bitwave_df)"
      by simp
    then have t: "t \<in> set bitwave_df" "reward_match account_id dt end_day expected t"
      by simp_all
    then have "t \<in> set (filter (\<lambda>t. walletId t = account_id) bitwave_df)"
      "t \<in> set (filter (\<lambda>t. datetime_key (midnight dt) < datetime_key (dateTime t) \<and>
                          datetime_key (dateTime t) \<le> datetime_key (midnight end_day))
                (filter (\<lambda>t. walletId t = account_id) bitwave_df))"
      by (simp_all add: reward_match_def)
    then have ne: "filter (\<lambda>t. walletId t = account_id) bitwave_df \<noteq> []"
      "filter (\<lambda>t. datetime_key (midnight dt) < datetime_key (dateTime t) \<and>
                          datetime_key (dateTime t) \<le> datetime_key (midnight end_day))
                (filter (\<lambda>t. walletId t = account_id) bitwave_df) \<noteq> []"
      by (metis empty_iff list.set(1))+
    from ne f Cons show ?thesis
      by (simp add: calculate_bitwave_amount_def plus_days_midnight assms Let_def match_of_def)
  qed
qed

lemma calculate_bitwave_amount_cases:
  assumes "calculate_bitwave_amount bitwave_df account_id dt expected s = (r, m, s')"
  shows "(r = None \<and> s' = s) \<or>
         (\<exists>t \<in> set bitwave_df. expected < bw_amount t \<and> r = Some (bw_amount t - expected) \<and>
            s' = append_match (match_of t expected) s)"
proof (cases "add_days 10 dt")
  case None
  with assms show ?thesis
    by (auto simp: calculate_bitwave_amount_def plus_days_midnight Let_def split: if_splits)
next
  case (Some end_day)
  show ?thesis
  proof (cases "filter (reward_match account_id dt end_day expected) bitwave_df")
    case Nil
    with assms show ?thesis by (simp add: calculate_bitwave_amount_closed [OF Some])
  next
    case (Cons t ts)
    then have "t \<in> set (filter (reward_match account_id dt end_day expected) bitwave_df)" by simp
    then have "t \<in> set bitwave_df" "expected < bw_amount t" by (simp_all add: reward_match_def)
    with assms Cons show ?thesis by (auto simp: calculate_bitwave_amount_closed [OF Some])
  qed
qed

lemma next_id_total:
  "\<exists>i s'. get_next_id (get_id_generator s) = Inr (i, s') \<and>
     stage3_matched_transactions s' = stage3_matched_transactions s \<and>
     (\<exists>c. id_counter s' = Some c)"
proof -
  obtain c where c: "id_counter (get_id_generator s) = Some c"
    by (simp add: get_id_generator_counter)
  show ?thesis
    by (simp add: get_next_id_Some [OF c] get_id_generator_frame)
qed

lemma next_id_after_match:
  "\<exists>i s'. get_next_id (get_id_generator (append_match m s)) = Inr (i, s') \<and>
     matched s' = matched s @ [m] \<and> stage3_matched_transactions s' \<noteq> Some []"
proof -
  from next_id_total [of "append_match m s"]
  obtain i s' where "get_next_id (get_id_generator (append_match m s)) = Inr (i, s')"
    "stage3_matched_transactions s' = stage3_matched_transactions (append_match m s)"
    by blast
  then show ?thesis
    using matched_append_match [of m s] append_match_nonempty [of m s]
    by (simp add: matched_def)
qed

lemma stage3_row_closed:
  assumes acct: "get_deposit_account_id (Wallet_Name row) wallets_df vesting_pairs_df =
                   (Some account_id, m1)"
    and ne: "account_id \<noteq> []"
    and exp: "get_stage2_deposit_amount stage2_df account_id (Date row) = (Some expected, m2)"
    and win: "add_days 10 (Date row) = Some end_day"
  shows "stage3_row stage2_df bitwave_df wallets_df vesting_pairs_df row s =
     (case filter (reward_match account_id (Date row) end_day expected) bitwave_df of
        [] \<Rightarrow> (Inr None, m1 @ m2, s)
      | t # _ \<Rightarrow>
         (case get_next_id (get_id_generator (append_match (match_of t expected) s)) of
            Inl e \<Rightarrow> (Inl e, m1 @ m2, get_id_generator (append_match (match_of t expected) s))
          | Inr (unique_id, s2) \<Rightarrow>
              (Inr (Some (reward_row unique_id (bw_amount t - expected)
                            (strftime_mdY_HMS (noon (Date row))) account_id (Date row),
                          \<lparr>dr_Date = Date row,
                           dr_Wallet_Name = get_wallet_name_from_id account_id wallets_df,
                           dr_Amount = bw_amount t - expected\<rparr>)),
               m1 @ m2, s2)))"
proof (cases "filter (reward_match account_id (Date row) end_day expected) bitwave_df")
  case Nil
  then show ?thesis
    by (simp add: stage3_row_def acct ne exp calculate_bitwave_amount_closed [OF win])
next
  case (Cons t ts)
  then have "t \<in> set (filter (reward_match account_id (Date row) end_day expected) bitwave_df)"
    by simp
  then have "expected < bw_amount t" by (simp add: reward_match_def)
  then have "\<not> bw_amount t - expected \<le> 0" by simp
  with Cons show ?thesis
    by (simp add: stage3_row_def acct ne exp calculate_bitwave_amount_closed [OF win] Let_def
        split: sum.splits)
qed


lemma adds_matches_refl: "adds_matches bitwave_df s [] s"
  by (simp add: adds_matches_def)

lemma adds_matches_trans:
  assumes "adds_matches bitwave_df s xs s1" and "adds_matches bitwave_df s1 ys s2"
  shows "adds_matches bitwave_df s (xs @ ys) s2"
proof -
  from assms(1) obtain n1 where n1: "matched s1 = matched s @ n1"
    "map mr_calculated_amount n1 = map (\<lambda>x. amount (fst x)) xs"
    "set (map mr_id n1) \<subseteq> bw_id ` set bitwave_df"
    unfolding adds_matches_def by blast
  from assms(2) obtain n2 where n2: "matched s2 = matched s1 @ n2"
    "map mr_calculated_amount n2 = map (\<lambda>x. amount (fst x)) ys"
    "set (map mr_id n2) \<subseteq> bw_id ` set bitwave_df"
    unfolding adds_matches_def by blast
  have "matched s2 = matched s @ (n1 @ n2)" by (simp add: n1 n2)
  moreover have "map mr_calculated_amount (n1 @ n2) = map (\<lambda>x. amount (fst x)) (xs @ ys)"
    by (simp add: n1 n2)
  moreover have "set (map mr_id (n1 @ n2)) \<subseteq> bw_id ` set bitwave_df"
    using n1(3) n2(3) by simp
  moreover have "stage3_matched_transactions s \<noteq> Some [] \<longrightarrow>
      stage3_matched_transactions s2 \<noteq> Some []"
    using assms unfolding adds_matches_def by blast
  ultimately show ?thesis unfolding adds_matches_def by blast
qed

lemma stage3_row_adds:
  "\<exists>r m s'. stage3_row stage2_df bitwave_df wallets_df vesting_pairs_df row s = (Inr r, m, s') \<and>
     adds_matches bitwave_df s (case r of None \<Rightarrow> [] | Some x \<Rightarrow> [x]) s'"
proof -
  obtain a m1 where acct:
    "get_deposit_account_id (Wallet_Name row) wallets_df vesting_pairs_df = (a, m1)"
    by (cases "get_deposit_account_id (Wallet_Name row) wallets_df vesting_pairs_df")
  show ?thesis
  proof (cases "truthy a")
    case False
    then have "stage3_row stage2_df bitwave_df wallets_df vesting_pairs_df row s = (Inr None, m1, s)"
      by (simp add: stage3_row_def acct truthy_def split: option.splits)
    then show ?thesis by (simp add: adds_matches_refl)
  next
    case True
    then obtain account_id where a: "a = Some account_id" "account_id \<noteq> []"
      by (auto simp: truthy_def split: option.splits)
    obtain x m2 where exp: "get_stage2_deposit_amount stage2_df account_id (Date row) = (x, m2)"
      by (cases "get_stage2_deposit_amount stage2_df account_id (Date row)")
    show ?thesis
    proof (cases x)
      case None
      then have "stage3_row stage2_df bitwave_df wallets_df vesting_pairs_df row s =
          (Inr None, m1 @ m2, s)"
        by (simp add: stage3_row_def acct a exp)
      then show ?thesis by (simp add: adds_matches_refl)
    next
      case (Some expected)
      obtain r m3 s1 where calc:
        "calculate_bitwave_amount bitwave_df account_id (Date row) expected s = (r, m3, s1)"
        by (cases "calculate_bitwave_amount bitwave_df account_id (Date row) expected s") auto
      from calculate_bitwave_amount_cases [OF calc]
      show ?thesis
      proof
        assume "r = None \<and> s1 = s"
        then have "stage3_row stage2_df bitwave_df wallets_df vesting_pairs_df row s =
            (Inr None, m1 @ m2 @ m3, s)"
          by (simp add: stage3_row_def acct a exp Some calc)
        then show ?thesis by (simp add: adds_matches_refl)
      next
        assume "\<exists>t \<in> set bitwave_df. expected < bw_amount t \<and>
            r = Some (bw_amount t - expected) \<and> s1 = append_match (match_of t expected) s"
        then obtain t where t: "t \<in> set bitwave_df" "expected < bw_amount t"
          "r = Some (bw_amount t - expected)" "s1 = append_match (match_of t expected) s"
          by blast
        from next_id_after_match [of "match_of t expected" s]
        obtain i s2 where i:
          "get_next_id (get_id_generator (append_match (match_of t expected) s)) = Inr (i, s2)"
          "matched s2 = matched s @ [match_of t expected]"
          "stage3_matched_transactions s2 \<noteq> Some []"
          by blast
        let ?out = "(reward_row i (bw_amount t - expected) (strftime_mdY_HMS (noon (Date row)))
                       account_id (Date row),
                     \<lparr>dr_Date = Date row,
                      dr_Wallet_Name = get_wallet_name_from_id account_id wallets_df,
                      dr_Amount = bw_amount t - expected\<rparr>)"
        from t(2) have pos: "\<not> bw_amount t - expected \<le> 0" by simp
        have "stage3_row stage2_df bitwave_df wallets_df vesting_pairs_df row s =
            (Inr (Some ?out), m1 @ m2 @ m3, s2)"
          using pos by (simp add: stage3_row_def acct a exp Some calc t(3,4) i(1) Let_def)
        moreover have "adds_matches bitwave_df s [?out] s2"
          unfolding adds_matches_def
          using i(2,3) t(1) by (simp add: match_of_def reward_row_def)
        ultimately show ?thesis by simp
      qed
    qed
  qed
qed

lemma stage3_loop_adds:
  "\<exists>rows m s'. stage3_loop stage2_df bitwave_df wallets_df vesting_pairs_df stage1_df s =
       (Inr rows, m, s') \<and> adds_matches bitwave_df s rows s'"
proof (induction stage1_df arbitrary: s)
  case Nil
  show ?case by (simp add: adds_matches_refl)
next
  case (Cons row rest)
  from stage3_row_adds [of stage2_df bitwave_df wallets_df vesting_pairs_df row s]
  obtain r m s1 where r:
    "stage3_row stage2_df bitwave_df wallets_df vesting_pairs_df row s = (Inr r, m, s1)"
    "adds_matches bitwave_df s (case r of None \<Rightarrow> [] | Some x \<Rightarrow> [x]) s1"
    by blast
  from Cons.IH [of s1]
  obtain rows m' s2 where l:
    "stage3_loop stage2_df bitwave_df wallets_df vesting_pairs_df rest s1 = (Inr rows, m', s2)"
    "adds_matches bitwave_df s1 rows s2"
    by blast
  have "stage3_loop stage2_df bitwave_df wallets_df vesting_pairs_df (row # rest) s =
      (Inr ((case r of None \<Rightarrow> [] | Some x \<Rightarrow> [x]) @ rows), m @ m', s2)"
    by (simp add: r(1) l(1))
  with adds_matches_trans [OF r(2) l(2)] show ?case by blast
qed

lemma process_stage_3_adds:
  assumes "process_stage_3 stage1_df stage2_df bitwave_df wallets_df vesting_pairs_df s =
             (out, m, s')"
  shows "\<exists>new. matched s' = matched s @ new \<and>
           map mr_calculated_amount new = map amount (fst out) \<and>
           set (map mr_id new) \<subseteq> bw_id ` set bitwave_df \<and>
           (stage3_matched_transactions s \<noteq> Some [] \<longrightarrow>
              stage3_matched_transactions s' \<noteq> Some [])"
proof (cases "stage1_df = []")
  case True
  with assms have "s' = s" "out = ([], [])" by (simp_all add: process_stage_3_def)
  then show ?thesis by simp
next
  case False
  from stage3_loop_adds [of stage2_df bitwave_df wallets_df vesting_pairs_df stage1_df s]
  obtain rows m' s2 where l:
    "stage3_loop stage2_df bitwave_df wallets_df vesting_pairs_df stage1_df s = (Inr rows, m', s2)"
    "adds_matches bitwave_df s rows s2"
    by blast
  with assms False have "s' = s2" "fst out = map fst rows"
    by (auto simp: process_stage_3_def)
  with l(2) show ?thesis unfolding adds_matches_def by (simp add: comp_def)
qed

lemma process_stage_4_matched:
  "fst (process_stage_4 s) = map suppress (matched s)"
  by (simp add: process_stage_4_def matched_def suppress_def [abs_def] split: option.splits)

lemma process_stage_2_matched:
  "stage3_matched_transactions (snd (snd (process_stage_2 rows ws ps s))) =
   stage3_matched_transactions s"
proof (cases "rows = []")
  case True
  then show ?thesis by (simp add: process_stage_2_def)
next
  case False
  obtain c where c: "id_counter (get_id_generator s) = Some c"
    by (simp add: get_id_generator_counter)
  show ?thesis
    by (simp add: process_stage_2_closed [OF c False] after_issuing_fields get_id_generator_frame)
qed
subsection \<open>The example runs\<close>

lemma stage2_ex_is_stage2_output:
  "fst (process_stage_2 [row_abc] wl vp world0) = stage2_ex"
  by (simp add: process_stage_2_closed [OF world0_start] stage2_entries_def row_abc_def
      withdrawal_lookup_abc deposit_lookup_abc noon_jan5_text issued_id_world0 stage2_ex_def
      del: One_nat_def)

lemma strptime_example: "strptime_mdY_HMS ''01/05/2024 12:00:00'' = Some (noon jan5)"
  by (simp add: strptime_mdY_HMS_def split_char_def num_field_def day_field_def is_digit_def
      str_to_nat_def is_space_def valid_datetime_def valid_date_def days_in_month_def is_leap_def
      noon_def jan5_def)

lemma expected_example: "get_stage2_deposit_amount stage2_ex ''W2'' jan5 = (Some 100, [])"
  by (simp add: get_stage2_deposit_amount_def stage2_ex_def withdrawal_row_def deposit_row_def
      strptime_example noon_def)

lemma window_example: "add_days 10 jan5 = Some jan15"
  by code_simp

lemma matches_example: "filter (reward_match ''W2'' jan5 jan15 100) bw = [bw ! 1, bw ! 2]"
  by code_simp

lemma bw1: "bw_id (bw ! 1) = ''tx1''" "bw_amount (bw ! 1) = 112" "walletId (bw ! 1) = ''W2''"
  "bw ! 1 \<in> set bw"
  by (simp_all add: bw_def)

lemma row_abc_fields: "Wallet_Name row_abc = ''Aptos TeamA''" "Date row_abc = jan5"
  by (simp_all add: row_abc_def)

text \<open>Whatever the state, the example row gives one reward of 12 and one record of it.\<close>

lemma stage3_example_run:
  "\<exists>i s'. process_stage_3 [row_abc] stage2_ex bw wl vp s =
     (([reward_row i 12 ''01/05/2024 12:00:00'' ''W2'' jan5],
       [\<lparr>dr_Date = jan5, dr_Wallet_Name = ''TeamA Beneficiary'', dr_Amount = 12\<rparr>]), [], s') \<and>
     matched s' = matched s @ [match_of (bw ! 1) 100]"
proof -
  have acct: "get_deposit_account_id (Wallet_Name row_abc) wl vp = (Some ''W2'', [])"
    by (simp add: row_abc_fields deposit_lookup_abc)
  have ne: "''W2'' \<noteq> []" by simp
  have exp: "get_stage2_deposit_amount stage2_ex ''W2'' (Date row_abc) = (Some 100, [])"
    by (simp add: row_abc_fields expected_example)
  have win: "add_days 10 (Date row_abc) = Some jan15"
    by (simp add: row_abc_fields window_example)
  have nm: "get_wallet_name_from_id ''W2'' wl = ''TeamA Beneficiary''"
    by (simp add: get_wallet_name_from_id_def wl_def)
  from next_id_after_match [of "match_of (bw ! 1) 100" s]
  obtain i s' where i:
    "get_next_id (get_id_generator (append_match (match_of (bw ! 1) 100) s)) = Inr (i, s')"
    "matched s' = matched s @ [match_of (bw ! 1) 100]"
    by blast
  have "stage3_row stage2_ex bw wl vp row_abc s =
      (Inr (Some (reward_row i 12 ''01/05/2024 12:00:00'' ''W2'' jan5,
                  \<lparr>dr_Date = jan5, dr_Wallet_Name = ''TeamA Beneficiary'', dr_Amount = 12\<rparr>)),
       [], s')"
    by (simp add: stage3_row_closed [OF acct ne exp win] row_abc_fields matches_example i(1)
        bw1 nm noon_jan5_text del: One_nat_def)
  then have "process_stage_3 [row_abc] stage2_ex bw wl vp s =
     (([reward_row i 12 ''01/05/2024 12:00:00'' ''W2'' jan5],
       [\<lparr>dr_Date = jan5, dr_Wallet_Name = ''TeamA Beneficiary'', dr_Amount = 12\<rparr>]), [], s')"
    by (simp add: process_stage_3_def)
  with i(2) show ?thesis by blast
qed

section \<open>The claims about Stage 3 and Stage 4\<close>



text \<open>
  Claim C9. Stage 3 only appends to the list of match records: after a run the
  list is the one before it followed by one record for each row of the run's
  output. So after two runs one after the other the list holds the records of
  both, and Stage 4 then writes a row for every one of them, those of the first
  run included. Stage 2 leaves the list as it is; Stage 1 and Stage 4 do not
  write to the session at all.
\<close>

theorem stage3_accumulator_append_only:
  assumes first: "process_stage_3 df1 st1 bw1 ws1 ps1 s0 = (out1, msgs1, s1)"
    and second: "process_stage_3 df2 st2 bw2 ws2 ps2 s1 = (out2, msgs2, s2)"
  shows "\<exists>new1 new2.
           matched s1 = matched s0 @ new1 \<and> length new1 = length (fst out1) \<and>
           matched s2 = matched s0 @ new1 @ new2 \<and> length new2 = length (fst out2) \<and>
           fst (process_stage_4 s2) =
             map suppress (matched s0) @ map suppress new1 @ map suppress new2 \<and>
           stage3_matched_transactions (snd (snd (process_stage_2 df ws ps s2))) =
             stage3_matched_transactions s2"
proof -
  from process_stage_3_adds [OF first]
  obtain new1 where n1: "matched s1 = matched s0 @ new1"
    "map mr_calculated_amount new1 = map amount (fst out1)"
    by blast
  from process_stage_3_adds [OF second]
  obtain new2 where n2: "matched s2 = matched s1 @ new2"
    "map mr_calculated_amount new2 = map amount (fst out2)"
    by blast
  from n1(2) have l1: "length new1 = length (fst out1)" by (rule map_eq_imp_length_eq)
  from n2(2) have l2: "length new2 = length (fst out2)" by (rule map_eq_imp_length_eq)
  have m2: "matched s2 = matched s0 @ new1 @ new2" by (simp add: n1(1) n2(1))
  then have s4: "fst (process_stage_4 s2) =
      map suppress (matched s0) @ map suppress new1 @ map suppress new2"
    by (simp add: process_stage_4_matched)
  from n1(1) l1 m2 l2 s4 process_stage_2_matched [of df ws ps s2] show ?thesis by blast
qed

theorem stage3_accumulator_append_only_witness:
  "process_stage_3 [row_abc] stage2_ex bw wl vp world0 = run1 \<and>
   process_stage_3 [row_abc] stage2_ex bw wl vp (snd (snd run1)) = run2 \<and>
   length (fst (fst run1)) = 1 \<and> length (fst (fst run2)) = 1 \<and>
   length (matched (snd (snd run1))) = 1 \<and> length (matched (snd (snd run2))) = 2 \<and>
   length (fst (process_stage_4 (snd (snd run2)))) = 2"
proof -
  have r1: "process_stage_3 [row_abc] stage2_ex bw wl vp world0 =
      (fst run1, fst (snd run1), snd (snd run1))"
    by (simp add: run1_def)
  have r2: "process_stage_3 [row_abc] stage2_ex bw wl vp (snd (snd run1)) =
      (fst run2, fst (snd run2), snd (snd run2))"
    by (simp add: run2_def)
  have m0: "matched world0 = []" by (simp add: matched_def world0_def)
  from stage3_example_run [of world0] have o1: "length (fst (fst run1)) = 1"
    by (auto simp: run1_def)
  from stage3_example_run [of "snd (snd run1)"] have o2: "length (fst (fst run2)) = 1"
    by (auto simp: run2_def)
  from stage3_accumulator_append_only [OF r1 r2]
  obtain new1 new2 where n: "matched (snd (snd run1)) = matched world0 @ new1"
    "length new1 = length (fst (fst run1))"
    "matched (snd (snd run2)) = matched world0 @ new1 @ new2"
    "length new2 = length (fst (fst run2))"
    "fst (process_stage_4 (snd (snd run2))) =
       map suppress (matched world0) @ map suppress new1 @ map suppress new2"
    by blast
  from n o1 o2 m0 have "length (matched (snd (snd run1))) = 1"
    "length (matched (snd (snd run2))) = 2"
    "length (fst (process_stage_4 (snd (snd run2)))) = 2"
    by simp_all
  with o1 o2 show ?thesis by (simp add: run1_def run2_def)
qed

text \<open>
  Claim C1 as it is written fails: Stage 4 reads the whole list of the session,
  not the records of the last run of Stage 3. In the example the second run of
  Stage 3 produces one match record (for the transaction \<^verbatim>\<open>tx1\<close>), and Stage 4
  after it writes two rows, one of them for the record of the first run; its
  output is not the list of rows for the records that the second run added.
\<close>

theorem stage4_output_not_last_run_counterexample:
  "length (fst (fst run2)) = 1 \<and>
   drop (length (matched (snd (snd run1)))) (matched (snd (snd run2))) = [match_of (bw ! 1) 100] \<and>
   map transactionID (fst (process_stage_4 (snd (snd run2)))) = [''tx1'', ''tx1''] \<and>
   fst (process_stage_4 (snd (snd run2))) \<noteq>
     map suppress (drop (length (matched (snd (snd run1)))) (matched (snd (snd run2))))"
proof -
  have m0: "matched world0 = []" by (simp add: matched_def world0_def)
  from stage3_example_run [of world0]
  have a: "matched (snd (snd run1)) = [match_of (bw ! 1) 100]"
    by (auto simp: run1_def m0)
  from stage3_example_run [of "snd (snd run1)"]
  have b: "matched (snd (snd run2)) = matched (snd (snd run1)) @ [match_of (bw ! 1) 100]"
    and o: "length (fst (fst run2)) = 1"
    by (auto simp: run2_def)
  have d: "drop (length (matched (snd (snd run1)))) (matched (snd (snd run2))) =
      [match_of (bw ! 1) 100]"
    by (simp add: b)
  have s4: "fst (process_stage_4 (snd (snd run2))) =
      [suppress (match_of (bw ! 1) 100), suppress (match_of (bw ! 1) 100)]"
    by (simp add: process_stage_4_matched a b)
  then have ids: "map transactionID (fst (process_stage_4 (snd (snd run2)))) = [''tx1'', ''tx1'']"
    by (simp add: suppress_def match_of_def bw1 del: One_nat_def)
  from s4 d have "fst (process_stage_4 (snd (snd run2))) \<noteq>
     map suppress (drop (length (matched (snd (snd run1)))) (matched (snd (snd run2))))"
    by simp
  with o d ids show ?thesis by (simp only: simp_thms)
qed

text \<open>
  Claim C1, amended. After a run of Stage 3, the list of match records is the
  list before the run followed by one new record for each row the run emitted,
  each with the id of a transaction of the reward-source table; Stage 4 then
  writes one row for every record of the list, those from before the run first,
  each with the record's transaction id and the action \<^verbatim>\<open>ignore\<close>. When there was
  no record before the run, these are the rows for the records of the run. When
  there is no record (the key is absent, or the list, never present and empty
  before, is empty after the run), Stage 4 returns the empty table with its
  warning.
\<close>

theorem stage4_one_entry_per_accumulated_match:
  assumes run: "process_stage_3 stage1_df stage2_df bitwave_df wallets_df vesting_pairs_df s =
                  (out, msgs, s')"
  shows "\<exists>new. matched s' = matched s @ new \<and> length new = length (fst out) \<and>
           set (map mr_id new) \<subseteq> bw_id ` set bitwave_df \<and>
           fst (process_stage_4 s') =
             map (\<lambda>m. \<lparr>transactionID = mr_id m, action = ''ignore''\<rparr>) (matched s @ new) \<and>
           (matched s = [] \<longrightarrow>
              fst (process_stage_4 s') =
                map (\<lambda>m. \<lparr>transactionID = mr_id m, action = ''ignore''\<rparr>) new) \<and>
           (stage3_matched_transactions s \<noteq> Some [] \<and> matched s' = [] \<longrightarrow>
              process_stage_4 s' =
                ([], [Warning ''No Stage 3 transactions found. Please run Stage 3 first.'']))"
proof -
  from process_stage_3_adds [OF run]
  obtain new where n: "matched s' = matched s @ new"
    "map mr_calculated_amount new = map amount (fst out)"
    "set (map mr_id new) \<subseteq> bw_id ` set bitwave_df"
    "stage3_matched_transactions s \<noteq> Some [] \<longrightarrow> stage3_matched_transactions s' \<noteq> Some []"
    by blast
  from n(2) have l: "length new = length (fst out)" by (rule map_eq_imp_length_eq)
  have s4: "fst (process_stage_4 s') =
      map (\<lambda>m. \<lparr>transactionID = mr_id m, action = ''ignore''\<rparr>) (matched s @ new)"
    by (simp add: process_stage_4_matched n(1) suppress_def [abs_def])
  then have fresh: "matched s = [] \<longrightarrow> fst (process_stage_4 s') =
      map (\<lambda>m. \<lparr>transactionID = mr_id m, action = ''ignore''\<rparr>) new"
    by simp
  have none: "stage3_matched_transactions s \<noteq> Some [] \<and> matched s' = [] \<longrightarrow>
      process_stage_4 s' = ([], [Warning ''No Stage 3 transactions found. Please run Stage 3 first.''])"
  proof
    assume a: "stage3_matched_transactions s \<noteq> Some [] \<and> matched s' = []"
    with n(4) have "stage3_matched_transactions s' \<noteq> Some []" by simp
    with a have "stage3_matched_transactions s' = None"
      by (cases "stage3_matched_transactions s'") (simp_all add: matched_def)
    then show "process_stage_4 s' =
        ([], [Warning ''No Stage 3 transactions found. Please run Stage 3 first.''])"
      by (simp add: process_stage_4_def)
  qed
  from n(1) l n(3) s4 fresh none show ?thesis by blast
qed

theorem stage4_one_entry_per_accumulated_match_witness:
  "process_stage_3 [row_abc] stage2_ex bw wl vp world0 = run1 \<and> matched world0 = [] \<and>
   length (fst (fst run1)) = 1 \<and>
   fst (process_stage_4 (snd (snd run1))) = [\<lparr>transactionID = ''tx1'', action = ''ignore''\<rparr>]"
proof -
  have r1: "process_stage_3 [row_abc] stage2_ex bw wl vp world0 =
      (fst run1, fst (snd run1), snd (snd run1))"
    by (simp add: run1_def)
  have m0: "matched world0 = []" by (simp add: matched_def world0_def)
  from stage3_example_run [of world0]
  have a: "matched (snd (snd run1)) = [match_of (bw ! 1) 100]" and o: "length (fst (fst run1)) = 1"
    by (auto simp: run1_def m0)
  from stage4_one_entry_per_accumulated_match [OF r1]
  obtain new where n: "matched (snd (snd run1)) = matched world0 @ new"
    "matched world0 = [] \<longrightarrow> fst (process_stage_4 (snd (snd run1))) =
        map (\<lambda>m. \<lparr>transactionID = mr_id m, action = ''ignore''\<rparr>) new"
    by blast
  from n(1) a m0 have "new = [match_of (bw ! 1) 100]" by simp
  with n(2) m0 have "fst (process_stage_4 (snd (snd run1))) =
      [\<lparr>transactionID = ''tx1'', action = ''ignore''\<rparr>]"
    by (simp add: match_of_def bw1 del: One_nat_def)
  with m0 o show ?thesis by (simp add: run1_def)
qed

end
